theory Spec2Isabelle
  imports Complex_Main "HOL-Library.Multiset"
begin

section \<open>Data model\<close>

text \<open>
  A round is one JSON object of the history file. It carries the drawn numbers either in
  its \<open>drawn\<close> field or, in older records, split over \<open>hits\<close> and \<open>misses\<close>;
  an absent key is \<open>None\<close>.
\<close>

record round_data =
  drawn :: "int list option"
  hits :: "int list option"
  misses :: "int list option"

text \<open>The exceptions the scripts can raise inside the modelled functions.\<close>

datatype error = ZeroDivisionError | KeyError | ValueError | OverflowError

text \<open>
  The configuration dictionary of the momentum generator. Window sizes and counts are
  Python integers (the command line accepts any integer, zero and negatives included);
  the threshold is a float, modelled as an exact rational. Frequencies and momentum
  ratios are rationals as well: the float results of the source are the roundings of
  these values, and a frequency is zero as a float exactly when its count is zero.
\<close>

record config =
  pattern_size :: int
  detection_window :: int
  baseline_window :: int
  momentum_threshold :: rat
  refresh_frequency :: int
  top_n_pool :: int

section \<open>Python list slicing\<close>

text \<open>
  A slice bound is clamped into \<open>0..len\<close>; a negative bound counts from the end.
  Slicing never raises.
\<close>

definition slice_bound :: "int \<Rightarrow> 'a list \<Rightarrow> nat" where
  "slice_bound i xs = nat (if i < 0 then int (length xs) + i else i)"

definition slice_from :: "int \<Rightarrow> 'a list \<Rightarrow> 'a list" where
  \<comment> \<open>\<open>xs[i:]\<close>\<close>
  "slice_from i xs = drop (slice_bound i xs) xs"

definition slice_to :: "int \<Rightarrow> 'a list \<Rightarrow> 'a list" where
  \<comment> \<open>\<open>xs[:j]\<close>\<close>
  "slice_to j xs = take (slice_bound j xs) xs"

definition slice :: "int \<Rightarrow> int \<Rightarrow> 'a list \<Rightarrow> 'a list" where
  \<comment> \<open>\<open>xs[i:j]\<close>\<close>
  "slice i j xs = drop (slice_bound i xs) (take (slice_bound j xs) xs)"

section \<open>Reading a round\<close>

definition get_or_empty :: "int list option \<Rightarrow> int list" where
  \<comment> \<open>\<open>round_data.get(key, [])\<close>\<close>
  "get_or_empty v = (case v of None \<Rightarrow> [] | Some xs \<Rightarrow> xs)"

definition get_drawn_numbers :: "round_data \<Rightarrow> int list" where
  "get_drawn_numbers r =
     (case drawn r of
        Some d \<Rightarrow> d
      | None \<Rightarrow> sort (get_or_empty (hits r) @ get_or_empty (misses r)))"

section \<open>Number scoring: momentum\<close>

definition count_appearances :: "int \<Rightarrow> round_data list \<Rightarrow> nat" where
  \<comment> \<open>\<open>sum(1 for round_data in rounds if number in get_drawn_numbers(round_data))\<close>\<close>
  "count_appearances number rounds =
     length (filter (\<lambda>r. number \<in> set (get_drawn_numbers r)) rounds)"

definition calculate_momentum :: "config \<Rightarrow> int \<Rightarrow> round_data list \<Rightarrow> error + rat option" where
  "calculate_momentum cfg number history =
     (if int (length history) < baseline_window cfg then Inr None
      else
        let recent_rounds = slice_from (- detection_window cfg) history;
            baseline_rounds = slice_from (- baseline_window cfg) history;
            recent_count = count_appearances number recent_rounds;
            baseline_count = count_appearances number baseline_rounds
        in if detection_window cfg = 0 then Inl ZeroDivisionError
           else
             let recent_freq = (of_nat recent_count :: rat) / of_int (detection_window cfg)
             in if baseline_window cfg = 0 then Inl ZeroDivisionError
                else
                  let baseline_freq = (of_nat baseline_count :: rat) / of_int (baseline_window cfg)
                  in if baseline_freq = 0
                     then Inr (Some (if recent_count > 0 then 999 else 0))
                     else Inr (Some (recent_freq / baseline_freq)))"

definition default_config :: config where
  "default_config =
     \<lparr>pattern_size = 10, detection_window = 5, baseline_window = 50,
      momentum_threshold = 3 / 2, refresh_frequency = 5, top_n_pool = 15\<rparr>"

definition drawn_round :: "int list \<Rightarrow> round_data" where
  \<comment> \<open>the record \<open>{"drawn": ns}\<close>\<close>
  "drawn_round ns = \<lparr>drawn = Some ns, hits = None, misses = None\<rparr>"

section \<open>Sequencing of computations that may raise\<close>

definition bind_err :: "error + 'a \<Rightarrow> ('a \<Rightarrow> error + 'b) \<Rightarrow> error + 'b" where
  "bind_err m f = (case m of Inl e \<Rightarrow> Inl e | Inr x \<Rightarrow> f x)"

section \<open>The momentum pattern generator\<close>

text \<open>
  \<open>identify_hot_numbers\<close> scans the numbers 1 to 40 in order, keeps those whose momentum
  is defined and reaches the threshold, and sorts them by momentum, highest first.
  Python's \<open>sorted(..., reverse=True)\<close> is stable, as is \<open>sort_key\<close> on the negated key.
\<close>

fun hot_scan :: "config \<Rightarrow> round_data list \<Rightarrow> int list \<Rightarrow> error + (int \<times> rat) list" where
  "hot_scan cfg history [] = Inr []"
| "hot_scan cfg history (number # rest) =
     bind_err (calculate_momentum cfg number history) (\<lambda>momentum.
     bind_err (hot_scan cfg history rest) (\<lambda>hot_numbers.
       Inr (case momentum of
              None \<Rightarrow> hot_numbers
            | Some m \<Rightarrow> if m \<ge> momentum_threshold cfg then (number, m) # hot_numbers
                        else hot_numbers)))"

definition identify_hot_numbers :: "config \<Rightarrow> round_data list \<Rightarrow> error + (int \<times> rat) list" where
  "identify_hot_numbers cfg history =
     bind_err (hot_scan cfg history [1..40]) (\<lambda>hot_numbers.
       Inr (sort_key (\<lambda>x. - snd x) hot_numbers))"

text \<open>
  The frequency table of \<open>get_most_frequent_numbers\<close> is a dictionary with the keys
  1 to 40, in that order; \<open>frequencies[num] += 1\<close> raises \<open>KeyError\<close> for any other
  number and never adds a key.
\<close>

definition increment :: "(int \<times> nat) list \<Rightarrow> int \<Rightarrow> error + (int \<times> nat) list" where
  "increment frequencies num =
     (if num \<in> fst ` set frequencies
      then Inr (map (\<lambda>(n, f). if n = num then (n, Suc f) else (n, f)) frequencies)
      else Inl KeyError)"

fun count_numbers :: "(int \<times> nat) list \<Rightarrow> int list \<Rightarrow> error + (int \<times> nat) list" where
  "count_numbers frequencies [] = Inr frequencies"
| "count_numbers frequencies (num # nums) =
     bind_err (increment frequencies num) (\<lambda>fs. count_numbers fs nums)"

fun count_rounds :: "(int \<times> nat) list \<Rightarrow> round_data list \<Rightarrow> error + (int \<times> nat) list" where
  "count_rounds frequencies [] = Inr frequencies"
| "count_rounds frequencies (r # rs) =
     bind_err (count_numbers frequencies (get_drawn_numbers r)) (\<lambda>fs. count_rounds fs rs)"

definition get_most_frequent_numbers ::
  "config \<Rightarrow> round_data list \<Rightarrow> int \<Rightarrow> int list \<Rightarrow> error + int list" where
  "get_most_frequent_numbers cfg history cnt exclude =
     (let baseline_rounds = slice_from (- baseline_window cfg) history
      in bind_err (count_rounds (map (\<lambda>i. (i, 0)) [1..40]) baseline_rounds) (\<lambda>frequencies.
           let sorted_nums =
                 sort_key (\<lambda>x. - int (snd x)) (filter (\<lambda>x. fst x \<notin> set exclude) frequencies)
           in Inr (map fst (slice_to cnt sorted_nums))))"

text \<open>
  \<open>get_random_pattern\<close> shuffle_at the numbers 1 to 40. The random source is made a
  parameter: \<open>shuffled\<close> is the list that \<open>random.shuffle\<close> leaves behind.
\<close>

definition get_random_pattern :: "config \<Rightarrow> int list \<Rightarrow> int list" where
  "get_random_pattern cfg shuffled = sort (slice_to (pattern_size cfg) shuffled)"

definition get_fallback_pattern :: "config \<Rightarrow> round_data list \<Rightarrow> int list \<Rightarrow> error + int list" where
  "get_fallback_pattern cfg history shuffled =
     (if length history = 0 then Inr (get_random_pattern cfg shuffled)
      else get_most_frequent_numbers cfg history (pattern_size cfg) [])"

definition generate_pattern :: "config \<Rightarrow> round_data list \<Rightarrow> error + int list" where
  "generate_pattern cfg history =
     bind_err (identify_hot_numbers cfg history) (\<lambda>hot_numbers.
       let top_candidates = slice_to (top_n_pool cfg) hot_numbers;
           pattern = map fst (slice_to (pattern_size cfg) top_candidates)
       in if int (length pattern) < pattern_size cfg
          then bind_err (get_most_frequent_numbers cfg history
                           (pattern_size cfg - int (length pattern)) pattern) (\<lambda>fallback.
                 Inr (sort (pattern @ fallback)))
          else Inr (sort pattern))"

text \<open>
  The generator object: its configuration and the two mutable fields. A call returns
  the pattern (or the exception raised) together with the generator's state afterwards;
  an exception leaves the fields as they were, since both are assigned only after
  \<open>generate_pattern\<close> has returned.
\<close>

record generator =
  gen_config :: config
  current_pattern :: "int list"
  last_refresh_round :: int

definition new_generator :: "config \<Rightarrow> generator" where
  "new_generator cfg = \<lparr>gen_config = cfg, current_pattern = [], last_refresh_round = 0\<rparr>"

definition should_refresh :: "generator \<Rightarrow> int \<Rightarrow> error + bool" where
  \<comment> \<open>\<open>or\<close> short-circuits: the modulo is not evaluated for an empty pattern\<close>
  "should_refresh g current_round_number =
     (if length (current_pattern g) = 0 then Inr True
      else if refresh_frequency (gen_config g) = 0 then Inl ZeroDivisionError
      else Inr (current_round_number mod refresh_frequency (gen_config g) = 0))"

definition get_pattern ::
  "generator \<Rightarrow> round_data list \<Rightarrow> int \<Rightarrow> int list \<Rightarrow> (error + int list) \<times> generator" where
  "get_pattern g history current_round_number shuffled =
     (case should_refresh g current_round_number of
        Inl e \<Rightarrow> (Inl e, g)
      | Inr True \<Rightarrow>
          if int (length history) < baseline_window (gen_config g)
          then (get_fallback_pattern (gen_config g) history shuffled, g)
          else (case generate_pattern (gen_config g) history of
                  Inl e \<Rightarrow> (Inl e, g)
                | Inr p \<Rightarrow> (Inr p, g\<lparr>current_pattern := p,
                                       last_refresh_round := current_round_number\<rparr>))
      | Inr False \<Rightarrow> (Inr (current_pattern g), g))"

section \<open>The payout table\<close>

text \<open>
  The payout table is the JSON object \<open>difficulty \<rightarrow> pattern size \<rightarrow> hit count \<rightarrow>
  multiplier\<close>, with strings as keys, kept as association lists. The evaluators take it
  as an optional argument and test it with \<open>if bet_multis:\<close>, which is false for
  \<open>None\<close> and for the empty dictionary.
\<close>

type_synonym payout_table = "(string \<times> (string \<times> (string \<times> rat) list) list) list"

definition truthy :: "payout_table option \<Rightarrow> bool" where
  "truthy bet_multis = (case bet_multis of None \<Rightarrow> False | Some t \<Rightarrow> t \<noteq> [])"

definition get_multiplier :: "payout_table option \<Rightarrow> string \<Rightarrow> string \<Rightarrow> string \<Rightarrow> rat" where
  \<comment> \<open>\<open>bet_multis.get(difficulty, {}).get(size, {}).get(hits, 0)\<close>\<close>
  "get_multiplier bet_multis difficulty size_key hits_key =
     (case bet_multis of
        None \<Rightarrow> 0
      | Some t \<Rightarrow>
          (case map_of t difficulty of
             None \<Rightarrow> 0
           | Some by_size \<Rightarrow>
               (case map_of by_size size_key of
                  None \<Rightarrow> 0
                | Some by_hits \<Rightarrow>
                    (case map_of by_hits hits_key of None \<Rightarrow> 0 | Some m \<Rightarrow> m))))"

text \<open>\<open>str\<close> on integers: decimal digits, with a minus sign for negatives.\<close>

definition digit_char :: "nat \<Rightarrow> char" where
  "digit_char d = ''0123456789'' ! d"

function str_nat :: "nat \<Rightarrow> string" where
  "str_nat n = (if n < 10 then [digit_char n] else str_nat (n div 10) @ [digit_char (n mod 10)])"
  by pat_completeness auto
termination
  by (relation "measure id") auto

declare str_nat.simps [simp del]

definition str_int :: "int \<Rightarrow> string" where
  "str_int i = (if i < 0 then CHR ''-'' # str_nat (nat (- i)) else str_nat (nat i))"

section \<open>The completion evaluators\<close>

definition hit_count :: "int list \<Rightarrow> int list \<Rightarrow> nat" where
  \<comment> \<open>\<open>len(set(pattern).intersection(set(drawn)))\<close>\<close>
  "hit_count pattern dr = card (set pattern \<inter> set dr)"

definition is_complete :: "int list \<Rightarrow> round_data \<Rightarrow> bool" where
  \<comment> \<open>\<open>set(pattern).issubset(set(get_drawn_numbers(round_data)))\<close>\<close>
  "is_complete pattern r = (set pattern \<subseteq> set (get_drawn_numbers r))"

text \<open>
  The first loop of both evaluators: \<open>enumerate(future_rounds, 1)\<close> up to the first
  round that contains the whole pattern. The counter is the 1-based \<open>rounds_ahead\<close>.
\<close>

fun first_completion :: "int list \<Rightarrow> round_data list \<Rightarrow> nat \<Rightarrow> nat option" where
  "first_completion pattern [] rounds_ahead = None"
| "first_completion pattern (r # rs) rounds_ahead =
     (if is_complete pattern r then Some rounds_ahead
      else first_completion pattern rs (Suc rounds_ahead))"

text \<open>
  The body shared by the partial-hit loops: the profit of stopping at this round, when
  the round hits the pattern at all and the table pays for that hit count.
\<close>

definition round_profit ::
  "payout_table option \<Rightarrow> string \<Rightarrow> string \<Rightarrow> int list \<Rightarrow> round_data \<Rightarrow> nat \<Rightarrow> rat option" where
  "round_profit bet_multis difficulty size_key pattern r rounds_ahead =
     (let h = hit_count pattern (get_drawn_numbers r)
      in if h > 0
         then let multiplier = get_multiplier bet_multis difficulty size_key (str_nat h)
              in if multiplier > 0 then Some (multiplier - of_nat rounds_ahead) else None
         else None)"

text \<open>
  The partial-hit loop of \<open>evaluate_pattern_performance\<close> (backtest-momentum.py): it
  visits every round of the window.
\<close>

fun best_partial_profit ::
  "(round_data \<Rightarrow> nat \<Rightarrow> rat option) \<Rightarrow> round_data list \<Rightarrow> nat \<Rightarrow> rat \<Rightarrow> rat" where
  "best_partial_profit profit_at [] rounds_ahead best_profit = best_profit"
| "best_partial_profit profit_at (r # rs) rounds_ahead best_profit =
     best_partial_profit profit_at rs (Suc rounds_ahead)
       (case profit_at r rounds_ahead of
          None \<Rightarrow> best_profit
        | Some profit \<Rightarrow> max best_profit profit)"

definition evaluate_pattern_performance ::
  "round_data list \<Rightarrow> int list \<Rightarrow> int \<Rightarrow> payout_table option \<Rightarrow> string \<Rightarrow> bool \<times> nat \<times> rat" where
  "evaluate_pattern_performance history pattern lookahead_rounds bet_multis difficulty =
     (if lookahead_rounds > int (length history) then (False, 0, 0)
      else
        let future_rounds = slice_to lookahead_rounds history
        in case first_completion pattern future_rounds 1 of
             Some rounds_ahead \<Rightarrow>
               (True, rounds_ahead,
                if truthy bet_multis
                then get_multiplier bet_multis difficulty
                       (str_nat (length pattern)) (str_nat (length pattern))
                     - of_nat rounds_ahead
                else 0)
           | None \<Rightarrow>
               if truthy bet_multis
               then (False, 0,
                     best_partial_profit
                       (round_profit bet_multis difficulty (str_nat (length pattern)) pattern)
                       future_rounds 1 (- of_int lookahead_rounds))
               else (False, 0, 0))"

text \<open>
  The partial-hit loop of \<open>evaluate_predictions\<close> (optimize-pattern-params.py): the
  same scan, but it breaks at the first round whose profit is not negative.
\<close>

fun best_partial_profit_break ::
  "(round_data \<Rightarrow> nat \<Rightarrow> rat option) \<Rightarrow> round_data list \<Rightarrow> nat \<Rightarrow> rat \<Rightarrow> rat" where
  "best_partial_profit_break profit_at [] rounds_ahead best_profit = best_profit"
| "best_partial_profit_break profit_at (r # rs) rounds_ahead best_profit =
     (case profit_at r rounds_ahead of
        None \<Rightarrow> best_partial_profit_break profit_at rs (Suc rounds_ahead) best_profit
      | Some profit \<Rightarrow>
          if profit \<ge> 0 then max best_profit profit
          else best_partial_profit_break profit_at rs (Suc rounds_ahead)
                 (max best_profit profit))"

text \<open>
  A discovered pattern: the dictionary \<open>{'numbers': ..., 'count': ...}\<close>. Its score is
  a Python float, of a type \<open>'f\<close> that the section on pattern discovery explains.
\<close>

record 'f pattern_obj =
  numbers :: "int list"
  score :: 'f

text \<open>The counters that \<open>evaluate_predictions\<close> updates while it walks the patterns.\<close>

record eval_acc =
  successes :: nat
  maintaining :: nat
  rounds_to_hit :: "nat list"
  profits :: "rat list"

definition eval_pattern ::
  "round_data list \<Rightarrow> int \<Rightarrow> int \<Rightarrow> payout_table option \<Rightarrow> string \<Rightarrow> eval_acc
     \<Rightarrow> 'f pattern_obj \<Rightarrow> eval_acc" where
  "eval_pattern future_rounds lookahead_rounds pattern_size_arg bet_multis difficulty acc pattern_o =
     (let pattern = numbers pattern_o
      in case first_completion pattern future_rounds 1 of
           Some rounds_ahead \<Rightarrow>
             (let acc1 = acc\<lparr>successes := successes acc + 1,
                             rounds_to_hit := rounds_to_hit acc @ [rounds_ahead]\<rparr>
              in if truthy bet_multis
                 then let multiplier = get_multiplier bet_multis difficulty
                                         (str_int pattern_size_arg) (str_int pattern_size_arg);
                          profit = multiplier - of_nat rounds_ahead
                      in acc1\<lparr>profits := profits acc1 @ [profit],
                              maintaining := (if profit \<ge> 0 then maintaining acc1 + 1
                                              else maintaining acc1)\<rparr>
                 else acc1)
         | None \<Rightarrow>
             if truthy bet_multis
             then let best_profit =
                        best_partial_profit_break
                          (round_profit bet_multis difficulty (str_int pattern_size_arg) pattern)
                          future_rounds 1 (- of_int lookahead_rounds)
                  in acc\<lparr>profits := profits acc @ [best_profit],
                         maintaining := (if best_profit \<ge> 0 then maintaining acc + 1
                                         else maintaining acc)\<rparr>
             else acc)"

definition average_nat :: "nat list \<Rightarrow> rat" where
  \<comment> \<open>\<open>sum(xs) / len(xs) if xs else 0\<close>\<close>
  "average_nat xs = (if xs = [] then 0 else of_nat (sum_list xs) / of_nat (length xs))"

definition average :: "rat list \<Rightarrow> rat" where
  "average xs = (if xs = [] then 0 else sum_list xs / of_nat (length xs))"

text \<open>
  The two averages that \<open>evaluate_predictions\<close> returns are float divisions, which round.
  The rounding is not modelled; the two operations are parameters instead:
  \<open>true_div a b\<close> is Python's \<open>a / b\<close> on two integers, and \<open>float_mean xs\<close> is
  \<open>sum(xs) / len(xs)\<close> on a non-empty list of numbers. Every statement about
  \<open>evaluate_predictions\<close> holds for all such operations, so also for those of the
  machine.
\<close>

record py_float =
  true_div :: "nat \<Rightarrow> nat \<Rightarrow> rat"
  float_mean :: "rat list \<Rightarrow> rat"

definition mean_ints :: "py_float \<Rightarrow> nat list \<Rightarrow> rat" where
  \<comment> \<open>\<open>sum(xs) / len(xs) if xs else 0\<close> on a list of integers\<close>
  "mean_ints pf xs = (if xs = [] then 0 else true_div pf (sum_list xs) (length xs))"

definition mean_floats :: "py_float \<Rightarrow> rat list \<Rightarrow> rat" where
  \<comment> \<open>\<open>sum(xs) / len(xs) if xs else 0\<close> on a list of numbers\<close>
  "mean_floats pf xs = (if xs = [] then 0 else float_mean pf xs)"

definition evaluate_predictions ::
  "py_float \<Rightarrow> round_data list \<Rightarrow> int \<Rightarrow> 'f pattern_obj list \<Rightarrow> int \<Rightarrow> int
     \<Rightarrow> payout_table option \<Rightarrow> string \<Rightarrow> nat \<times> nat \<times> rat \<times> nat \<times> rat" where
  "evaluate_predictions pf history current_idx patterns lookahead_rounds pattern_size_arg
       bet_multis difficulty =
     (if current_idx + lookahead_rounds > int (length history) then (0, 0, 0, 0, 0)
      else
        let future_rounds = slice current_idx (current_idx + lookahead_rounds) history;
            acc = foldl (eval_pattern future_rounds lookahead_rounds pattern_size_arg
                           bet_multis difficulty)
                    \<lparr>successes = 0, maintaining = 0, rounds_to_hit = [], profits = []\<rparr> patterns
        in (length patterns, successes acc, mean_ints pf (rounds_to_hit acc),
            maintaining acc, mean_floats pf (profits acc)))"

section \<open>Pattern discovery\<close>

text \<open>
  \<open>itertools.combinations(arr, k)\<close>: the \<open>k\<close>-element subsequences of \<open>arr\<close> by
  position, in lexicographic order of positions; a negative \<open>k\<close> raises \<open>ValueError\<close>.
\<close>

fun combinations :: "'a list \<Rightarrow> nat \<Rightarrow> 'a list list" where
  "combinations xs 0 = [[]]"
| "combinations [] (Suc k) = []"
| "combinations (x # xs) (Suc k) = map ((#) x) (combinations xs k) @ combinations xs (Suc k)"

definition get_combinations :: "int list \<Rightarrow> int \<Rightarrow> error + int list list" where
  "get_combinations arr k = (if k < 0 then Inl ValueError else Inr (combinations arr (nat k)))"

text \<open>
  The scores are Python floats. A float is a value of a type \<open>'f\<close> of which only the
  order is used (the numeric order of the doubles; a NaN, which no comparison orders,
  is not a value of \<open>'f\<close>). The float operations are parameters of the model, with no
  law assumed: \<open>fl_zero\<close> and \<open>fl_one\<close> are \<open>0.0\<close> and \<open>1.0\<close>, \<open>fl_add\<close> is the
  rounding addition, and \<open>fl_pow x n\<close> is \<open>x ** n\<close> for a non-negative integer \<open>n\<close>,
  which raises \<open>OverflowError\<close> when the power is out of range.
\<close>

record 'f float_ops =
  fl_zero :: 'f
  fl_one :: 'f
  fl_add :: "'f \<Rightarrow> 'f \<Rightarrow> 'f"
  fl_pow :: "'f \<Rightarrow> nat \<Rightarrow> error + 'f"

text \<open>
  \<open>pattern_scores\<close> is a \<open>defaultdict(float)\<close>, kept as an association list in
  insertion order: \<open>pattern_scores[key] += weight\<close> updates an existing key in place
  and appends a new key with \<open>0.0 + weight\<close>.
\<close>

definition add_weight ::
  "'f float_ops \<Rightarrow> (int list \<times> 'f) list \<Rightarrow> 'f \<Rightarrow> int list \<Rightarrow> (int list \<times> 'f) list" where
  "add_weight ops pattern_scores weight key =
     (if key \<in> fst ` set pattern_scores
      then map (\<lambda>(k, v). if k = key then (k, fl_add ops v weight) else (k, v)) pattern_scores
      else pattern_scores @ [(key, fl_add ops (fl_zero ops) weight)])"

definition round_weight :: "'f float_ops \<Rightarrow> bool \<Rightarrow> 'f \<Rightarrow> nat \<Rightarrow> nat \<Rightarrow> error + 'f" where
  "round_weight ops use_recency decay_factor total_rounds idx =
     (if use_recency
      then let rounds_ago = total_rounds - idx - 1 in fl_pow ops decay_factor rounds_ago
      else Inr (fl_one ops))"

fun score_rounds ::
  "'f float_ops \<Rightarrow> int \<Rightarrow> (nat \<Rightarrow> error + 'f) \<Rightarrow> round_data list \<Rightarrow> nat
     \<Rightarrow> (int list \<times> 'f) list \<Rightarrow> error + (int list \<times> 'f) list" where
  "score_rounds ops pattern_size_arg weight_at [] idx pattern_scores = Inr pattern_scores"
| "score_rounds ops pattern_size_arg weight_at (r # rs) idx pattern_scores =
     bind_err (get_combinations (get_drawn_numbers r) pattern_size_arg) (\<lambda>combos.
     bind_err (weight_at idx) (\<lambda>weight.
       score_rounds ops pattern_size_arg weight_at rs (Suc idx)
         (foldl (\<lambda>ps combo. add_weight ops ps weight (sort combo)) pattern_scores combos)))"

definition accumulate_scores ::
  "'f float_ops \<Rightarrow> round_data list \<Rightarrow> int \<Rightarrow> bool \<Rightarrow> 'f \<Rightarrow> error + (int list \<times> 'f) list" where
  \<comment> \<open>the loop of \<open>find_common_patterns\<close> over its window \<open>sample\<close>\<close>
  "accumulate_scores ops sample pattern_size_arg use_recency decay_factor =
     score_rounds ops pattern_size_arg
       (round_weight ops use_recency decay_factor (length sample)) sample 0 []"

text \<open>
  \<open>sorted(..., key=score, reverse=True)\<close> reverses the list, sorts it stably in
  ascending order and reverses the result, so that entries of equal score keep their
  insertion order.
\<close>

definition sorted_descending :: "(int list \<times> 'f::linorder) list \<Rightarrow> (int list \<times> 'f) list" where
  "sorted_descending items = rev (sort_key snd (rev items))"

definition find_common_patterns ::
  "'f::linorder float_ops \<Rightarrow> round_data list \<Rightarrow> int \<Rightarrow> int \<Rightarrow> int \<Rightarrow> bool \<Rightarrow> 'f
     \<Rightarrow> error + 'f pattern_obj list" where
  "find_common_patterns ops history pattern_size_arg top_n discovery_window use_recency
       decay_factor =
     (let sample = slice_from (- discovery_window) history
      in bind_err (accumulate_scores ops sample pattern_size_arg use_recency decay_factor)
           (\<lambda>pattern_scores.
              let sorted_patterns = sorted_descending pattern_scores
              in Inr (map (\<lambda>x. \<lparr>numbers = fst x, score = snd x\<rparr>)
                        (slice_to top_n sorted_patterns))))"

section \<open>The buildup filter\<close>

definition matches :: "int list \<Rightarrow> int list \<Rightarrow> nat" where
  \<comment> \<open>\<open>sum(1 for num in pattern if num in drawn_set)\<close>\<close>
  "matches pattern drawn_set = length (filter (\<lambda>num. num \<in> set drawn_set) pattern)"

definition check_pattern_buildup :: "int list \<Rightarrow> int list list \<Rightarrow> int \<Rightarrow> int \<Rightarrow> nat list" where
  "check_pattern_buildup pattern sample_cache min_hits max_hits =
     filter (\<lambda>m. min_hits \<le> int m \<and> int m \<le> max_hits) (map (matches pattern) sample_cache)"

text \<open>The backward scan \<open>for i in range(len(tracking_cache) - 1, -1, -1)\<close>.\<close>

fun last_full_hit_below :: "int list \<Rightarrow> int list list \<Rightarrow> int \<Rightarrow> nat \<Rightarrow> int" where
  "last_full_hit_below pattern tracking_cache pattern_size_arg 0 = - 1"
| "last_full_hit_below pattern tracking_cache pattern_size_arg (Suc i) =
     (if int (matches pattern (tracking_cache ! i)) = pattern_size_arg then int i
      else last_full_hit_below pattern tracking_cache pattern_size_arg i)"

definition check_last_full_hit :: "int list \<Rightarrow> int list list \<Rightarrow> int \<Rightarrow> int" where
  "check_last_full_hit pattern tracking_cache pattern_size_arg =
     last_full_hit_below pattern tracking_cache pattern_size_arg (length tracking_cache)"

section \<open>Python ranges\<close>

definition py_range :: "int \<Rightarrow> int \<Rightarrow> int \<Rightarrow> error + int list" where
  \<comment> \<open>\<open>range(start, stop, step)\<close>; a zero step raises \<open>ValueError\<close>\<close>
  "py_range start stop step =
     (if step = 0 then Inl ValueError
      else if step > 0
           then Inr (map (\<lambda>k. start + int k * step)
                       [0..<nat ((stop - start + step - 1) div step)])
           else Inr (map (\<lambda>k. start + int k * step)
                       [0..<nat ((start - stop - step - 1) div (- step))]))"

section \<open>The backtest harnesses\<close>

text \<open>A \<open>for\<close> loop whose body may raise: the first exception ends the loop.\<close>

fun for_each :: "('s \<Rightarrow> 'a \<Rightarrow> error + 's) \<Rightarrow> 'a list \<Rightarrow> 's \<Rightarrow> error + 's" where
  "for_each body [] st = Inr st"
| "for_each body (x # xs) st = bind_err (body st x) (\<lambda>st'. for_each body xs st')"

definition rate :: "nat \<Rightarrow> nat \<Rightarrow> rat" where
  \<comment> \<open>\<open>(part / whole * 100) if whole > 0 else 0\<close>\<close>
  "rate part whole = (if whole > 0 then of_nat part / of_nat whole * 100 else 0)"

subsection \<open>backtest-momentum.py\<close>

text \<open>
  The loop state of \<open>run_backtest\<close>: the generator object and the counters. Progress
  messages are not modelled; the percentage they print divides by
  \<open>len(history) - lookahead - start_idx\<close>, which is not zero inside the loop.
\<close>

record bt_state =
  m_generator :: generator
  m_total_predictions :: nat
  m_total_completions :: nat
  m_total_maintaining :: nat
  m_rounds_to_hit :: "nat list"
  m_profits :: "rat list"
  m_pattern_changes :: nat
  m_last_pattern :: "int list"

record bt_result =
  r_config :: config
  r_total_predictions :: nat
  r_total_completions :: nat
  r_success_rate :: rat
  r_avg_rounds_to_hit :: rat
  r_pattern_changes :: nat
  r_total_maintaining :: "nat option"
  r_maintaining_rate :: "rat option"
  r_avg_profit :: "rat option"

definition bt_step ::
  "round_data list \<Rightarrow> payout_table option \<Rightarrow> string \<Rightarrow> (int \<Rightarrow> int list) \<Rightarrow> bt_state \<Rightarrow> int
     \<Rightarrow> error + bt_state" where
  "bt_step history bet_multis difficulty shuffle_at st current_idx =
     (let lookahead = 30;
          history_slice = slice_to current_idx history
      in case get_pattern (m_generator st) history_slice current_idx (shuffle_at current_idx) of
           (Inl e, g) \<Rightarrow> Inl e
         | (Inr pattern, g) \<Rightarrow>
             (let changed = (pattern \<noteq> m_last_pattern st);
                  future_history = slice_from current_idx history
              in case evaluate_pattern_performance future_history pattern lookahead
                        bet_multis difficulty of
                   (completed, rounds, profit) \<Rightarrow>
                     Inr \<lparr>m_generator = g,
                          m_total_predictions = m_total_predictions st + 1,
                          m_total_completions =
                            (if completed then m_total_completions st + 1
                             else m_total_completions st),
                          m_total_maintaining =
                            (if truthy bet_multis \<and> profit \<ge> 0 then m_total_maintaining st + 1
                             else m_total_maintaining st),
                          m_rounds_to_hit =
                            (if completed then m_rounds_to_hit st @ [rounds]
                             else m_rounds_to_hit st),
                          m_profits =
                            (if truthy bet_multis then m_profits st @ [profit]
                             else m_profits st),
                          m_pattern_changes =
                            (if changed then m_pattern_changes st + 1 else m_pattern_changes st),
                          m_last_pattern = (if changed then pattern else m_last_pattern st)\<rparr>))"

definition bt_finish :: "config \<Rightarrow> payout_table option \<Rightarrow> bt_state \<Rightarrow> bt_result" where
  "bt_finish cfg bet_multis st =
     \<lparr>r_config = cfg,
      r_total_predictions = m_total_predictions st,
      r_total_completions = m_total_completions st,
      r_success_rate = rate (m_total_completions st) (m_total_predictions st),
      r_avg_rounds_to_hit = average_nat (m_rounds_to_hit st),
      r_pattern_changes = m_pattern_changes st,
      r_total_maintaining = (if truthy bet_multis then Some (m_total_maintaining st) else None),
      r_maintaining_rate =
        (if truthy bet_multis then Some (rate (m_total_maintaining st) (m_total_predictions st))
         else None),
      r_avg_profit = (if truthy bet_multis then Some (average (m_profits st)) else None)\<rparr>"

definition run_backtest ::
  "round_data list \<Rightarrow> config \<Rightarrow> payout_table option \<Rightarrow> string \<Rightarrow> (int \<Rightarrow> int list)
     \<Rightarrow> error + bt_result" where
  \<comment> \<open>\<open>shuffle_at i\<close> is what \<open>random.shuffle\<close> yields if called at evaluation point \<open>i\<close>\<close>
  "run_backtest history cfg bet_multis difficulty shuffle_at =
     (let lookahead = 30;
          start_idx = baseline_window cfg + 100
      in bind_err (py_range start_idx (int (length history) - lookahead) (refresh_frequency cfg))
           (\<lambda>idxs.
         bind_err (for_each (bt_step history bet_multis difficulty shuffle_at) idxs
                     \<lparr>m_generator = new_generator cfg,
                      m_total_predictions = 0, m_total_completions = 0,
                      m_total_maintaining = 0, m_rounds_to_hit = [], m_profits = [],
                      m_pattern_changes = 0, m_last_pattern = []\<rparr>)
           (\<lambda>st. Inr (bt_finish cfg bet_multis st))))"

subsection \<open>optimize-pattern-params.py\<close>

record params =
  sample_size :: int
  min_hits :: int
  max_hits :: int
  not_hit_in :: int

record opt_state =
  o_total_predictions :: nat
  o_total_successes :: nat
  o_total_maintaining :: nat
  o_total_rounds_to_hit :: "rat list"
  o_total_profit :: "rat list"
  o_evaluation_points :: nat

record opt_result =
  q_params :: params
  q_evaluation_points :: nat
  q_total_predictions :: nat
  q_total_successes :: nat
  q_total_maintaining :: nat
  q_success_rate :: rat
  q_maintaining_rate :: rat
  q_avg_rounds_to_hit :: rat
  q_avg_predictions_per_point :: rat
  q_avg_profit :: rat

text \<open>
  The body of the filter loop for one pattern: whether the pattern is kept. The hit
  rate divides by \<open>len(sample)\<close>, reached only when the sample has a buildup.
\<close>

definition keep_pattern ::
  "params \<Rightarrow> round_data list \<Rightarrow> int list list \<Rightarrow> int list list \<Rightarrow> int \<Rightarrow> 'f pattern_obj
     \<Rightarrow> error + bool" where
  "keep_pattern ps sample sample_cache tracking_cache pattern_size_arg pattern_o =
     (let pattern = numbers pattern_o;
          buildups = check_pattern_buildup pattern sample_cache (min_hits ps) (max_hits ps)
      in if buildups = [] then Inr False
         else if length sample = 0 then Inl ZeroDivisionError
         else
           let hit_rate = (of_nat (length buildups) :: rat) / of_nat (length sample) * 100
           in if hit_rate < 10 then Inr False
              else
                let last_full_hit_idx = check_last_full_hit pattern tracking_cache pattern_size_arg
                in if not_hit_in ps > 0 \<and> last_full_hit_idx \<noteq> - 1
                      \<and> (int (length tracking_cache) - 1) - last_full_hit_idx < not_hit_in ps
                   then Inr False
                   else Inr True)"

fun filter_patterns ::
  "('f pattern_obj \<Rightarrow> error + bool) \<Rightarrow> 'f pattern_obj list \<Rightarrow> error + 'f pattern_obj list" where
  "filter_patterns keep [] = Inr []"
| "filter_patterns keep (p # ps) =
     bind_err (keep p) (\<lambda>k.
     bind_err (filter_patterns keep ps) (\<lambda>rest. Inr (if k then p # rest else rest)))"

definition opt_step ::
  "'f::linorder float_ops \<Rightarrow> py_float \<Rightarrow> round_data list \<Rightarrow> params \<Rightarrow> int
     \<Rightarrow> payout_table option \<Rightarrow> string \<Rightarrow> bool \<Rightarrow> 'f \<Rightarrow> opt_state \<Rightarrow> int \<Rightarrow> error + opt_state" where
  "opt_step ops pf history ps pattern_size_arg bet_multis difficulty use_recency decay_factor
       st current_idx =
     (let discovery_window = 500;
          lookahead = 30;
          discovery_history = slice (max 0 (current_idx - discovery_window)) current_idx history
      in bind_err (find_common_patterns ops discovery_history pattern_size_arg 100
                     discovery_window use_recency decay_factor) (\<lambda>all_patterns.
           if all_patterns = [] then Inr st
           else
             let sample = slice (current_idx - sample_size ps) current_idx history;
                 tracking = slice (max 0 (current_idx - 1000)) current_idx history;
                 sample_cache = map get_drawn_numbers sample;
                 tracking_cache = map get_drawn_numbers tracking
             in bind_err (filter_patterns
                            (keep_pattern ps sample sample_cache tracking_cache pattern_size_arg)
                            all_patterns) (\<lambda>filtered_patterns.
                  if filtered_patterns = [] then Inr st
                  else
                    case evaluate_predictions pf history current_idx filtered_patterns lookahead
                           pattern_size_arg bet_multis difficulty of
                      (preds, succ, avg_rounds, maint, avg_profit) \<Rightarrow>
                        Inr \<lparr>o_total_predictions = o_total_predictions st + preds,
                             o_total_successes = o_total_successes st + succ,
                             o_total_maintaining = o_total_maintaining st + maint,
                             o_total_rounds_to_hit =
                               (if avg_rounds > 0 then o_total_rounds_to_hit st @ [avg_rounds]
                                else o_total_rounds_to_hit st),
                             o_total_profit =
                               (if avg_profit \<noteq> 0 then o_total_profit st @ [avg_profit]
                                else o_total_profit st),
                             o_evaluation_points = o_evaluation_points st + 1\<rparr>)))"

definition opt_finish :: "py_float \<Rightarrow> params \<Rightarrow> opt_state \<Rightarrow> opt_result" where
  "opt_finish pf ps st =
     \<lparr>q_params = ps,
      q_evaluation_points = o_evaluation_points st,
      q_total_predictions = o_total_predictions st,
      q_total_successes = o_total_successes st,
      q_total_maintaining = o_total_maintaining st,
      q_success_rate = rate (o_total_successes st) (o_total_predictions st),
      q_maintaining_rate = rate (o_total_maintaining st) (o_total_predictions st),
      q_avg_rounds_to_hit = mean_floats pf (o_total_rounds_to_hit st),
      q_avg_predictions_per_point =
        (if o_evaluation_points st > 0
         then true_div pf (o_total_predictions st) (o_evaluation_points st) else 0),
      q_avg_profit = mean_floats pf (o_total_profit st)\<rparr>"

definition run_backtest_params ::
  "'f::linorder float_ops \<Rightarrow> py_float \<Rightarrow> round_data list \<Rightarrow> params \<Rightarrow> int
     \<Rightarrow> payout_table option \<Rightarrow> string \<Rightarrow> bool \<Rightarrow> 'f \<Rightarrow> error + opt_result" where
  \<comment> \<open>\<open>run_backtest\<close> of optimize-pattern-params.py\<close>
  "run_backtest_params ops pf history ps pattern_size_arg bet_multis difficulty use_recency
       decay_factor =
     (let discovery_window = 500;
          lookahead = 30;
          start_idx = max discovery_window (sample_size ps) + 200;
          step_size = 50
      in bind_err (py_range start_idx (int (length history) - lookahead) step_size) (\<lambda>idxs.
         bind_err (for_each (opt_step ops pf history ps pattern_size_arg bet_multis difficulty
                               use_recency decay_factor) idxs
                     \<lparr>o_total_predictions = 0, o_total_successes = 0, o_total_maintaining = 0,
                      o_total_rounds_to_hit = [], o_total_profit = [],
                      o_evaluation_points = 0\<rparr>)
           (\<lambda>st. Inr (opt_finish pf ps st))))"

section \<open>Specification-side notions\<close>





text \<open>
  Exact arithmetic as an instance of the float operations. It is what double arithmetic
  computes as long as every value involved is a double (integers of moderate size and
  dyadic fractions), as in the concrete inputs below.
\<close>

definition exact_float :: py_float where
  "exact_float =
     \<lparr>true_div = (\<lambda>a b. of_nat a / of_nat b),
      float_mean = (\<lambda>xs. sum_list xs / of_nat (length xs))\<rparr>"

definition exact_ops :: "rat float_ops" where
  "exact_ops = \<lparr>fl_zero = 0, fl_one = 1, fl_add = (+), fl_pow = (\<lambda>x n. Inr (x ^ n))\<rparr>"

text \<open>The payout table and a forward window of the concrete scenario: the pattern
  1 to 5 completes for the first time in the tenth round.\<close>

definition example_payout :: "payout_table option" where
  "example_payout = Some [(''high'', [(''5'', [(''5'', 40), (''4'', 3)])])]"











text \<open>
  How often a pattern (a sorted tuple) occurs among the combinations of one round, and
  in all the rounds of a window taken as a multiset.
\<close>

definition occurrences :: "int list \<Rightarrow> round_data \<Rightarrow> int \<Rightarrow> nat" where
  "occurrences key r k =
     count_list (map sort (combinations (get_drawn_numbers r) (nat k))) key"

definition total_occurrences :: "int list \<Rightarrow> round_data multiset \<Rightarrow> int \<Rightarrow> nat" where
  "total_occurrences key rounds k = sum_mset (image_mset (\<lambda>r. occurrences key r k) rounds)"

text \<open>
  The float sum \<open>0.0 + w1 + w2 + ...\<close>, added from left to right, and the weights that
  a pattern collects over a window: the weight of each round, in the order of the
  rounds, once for every occurrence of the pattern in that round.
\<close>

definition float_sum :: "'f float_ops \<Rightarrow> 'f list \<Rightarrow> 'f" where
  "float_sum ops ws = foldl (fl_add ops) (fl_zero ops) ws"

definition occurrence_weights :: "(nat \<Rightarrow> 'f) \<Rightarrow> round_data list \<Rightarrow> int \<Rightarrow> int list \<Rightarrow> 'f list" where
  "occurrence_weights weight sample k key =
     concat (map (\<lambda>idx. replicate (occurrences key (sample ! idx) k) (weight idx))
               [0..<length sample])"

text \<open>The score a list of accumulated scores holds for a pattern, \<open>0.0\<close> for an absent one.\<close>

definition score_value :: "'f float_ops \<Rightarrow> (int list \<times> 'f) list \<Rightarrow> int list \<Rightarrow> 'f" where
  "score_value ops pattern_scores key =
     (case map_of pattern_scores key of None \<Rightarrow> fl_zero ops | Some v \<Rightarrow> v)"

text \<open>The scores as a finite map from patterns, or the exception.\<close>

definition scores_of :: "error + (int list \<times> 'f) list \<Rightarrow> error + (int list \<rightharpoonup> 'f)" where
  "scores_of res = (case res of Inl e \<Rightarrow> Inl e | Inr pattern_scores \<Rightarrow> Inr (map_of pattern_scores))"

definition two_round_window :: "round_data list" where
  "two_round_window = [drawn_round [1, 2], drawn_round [3, 4]]"


text \<open>A sequence of calls on one generator object, each with its own history prefix,
  round number and random source; the results in order and the final state.\<close>

fun get_patterns ::
  "generator \<Rightarrow> (round_data list \<times> int \<times> int list) list \<Rightarrow> (error + int list) list \<times> generator" where
  "get_patterns g [] = ([], g)"
| "get_patterns g (c # calls) =
     (case get_pattern g (fst c) (fst (snd c)) (snd (snd c)) of
        (res, g') \<Rightarrow> (case get_patterns g' calls of (rs, g'') \<Rightarrow> (res # rs, g'')))"

text \<open>Two history prefixes shorter than the default baseline window, the second one
  round longer than the first; a history whose most frequent number is not the smallest;
  and a generator that holds a cached pattern.\<close>

definition short_history_1 :: "round_data list" where
  "short_history_1 = [drawn_round [11, 12, 13, 14, 15, 16, 17, 18, 19, 20]]"

definition short_history_2 :: "round_data list" where
  "short_history_2 = short_history_1 @ [drawn_round [1, 2, 3, 4, 5, 6, 7, 8, 9, 10]]"

definition unsorted_history :: "round_data list" where
  "unsorted_history =
     [drawn_round [1, 2, 3, 4, 5, 6, 7, 8, 9, 10],
      drawn_round [10, 11, 12, 13, 14, 15, 16, 17, 18, 19]]"

definition cached_generator :: generator where
  "cached_generator =
     \<lparr>gen_config = default_config, current_pattern = [3, 7, 9], last_refresh_round = 100\<rparr>"

text \<open>
  A run of backtest-momentum.py with one evaluation point and no completion: 132 rounds
  of four numbers each, patterns of three numbers, windows of one round, and otherwise
  the default configuration. The loop is \<open>range(101, 102, 5)\<close>; no number is hot, the
  pattern is the most frequent numbers 1, 2, 3 of the last round seen, and none of the
  31 rounds that follow contains it.
\<close>

definition small_window_config :: config where
  "small_window_config =
     default_config\<lparr>pattern_size := 3, detection_window := 1, baseline_window := 1\<rparr>"

definition losing_history :: "round_data list" where
  "losing_history =
     replicate 101 (drawn_round [1, 2, 3, 4]) @ replicate 31 (drawn_round [5, 6, 7, 8])"

definition no_shuffle :: "int \<Rightarrow> int list" where
  "no_shuffle i = [1..40]"

definition losing_result :: bt_result where
  "losing_result =
     \<lparr>r_config = small_window_config, r_total_predictions = 1, r_total_completions = 0,
      r_success_rate = 0, r_avg_rounds_to_hit = 0, r_pattern_changes = 1,
      r_total_maintaining = None, r_maintaining_rate = None, r_avg_profit = None\<rparr>"

text \<open>A run of optimize-pattern-params.py on a history too short for any evaluation point.\<close>

definition example_params :: params where
  "example_params = \<lparr>sample_size = 5, min_hits = 3, max_hits = 4, not_hit_in = 0\<rparr>"

definition empty_result :: opt_result where
  "empty_result =
     \<lparr>q_params = example_params, q_evaluation_points = 0, q_total_predictions = 0,
      q_total_successes = 0, q_total_maintaining = 0, q_success_rate = 0,
      q_maintaining_rate = 0, q_avg_rounds_to_hit = 0, q_avg_predictions_per_point = 0,
      q_avg_profit = 0\<rparr>"

section \<open>Properties of the momentum score\<close>

lemma calculate_momentum_short:
  "int (length history) < baseline_window cfg \<Longrightarrow> calculate_momentum cfg number history = Inr None"
  by (simp add: calculate_momentum_def)

lemma calculate_momentum_long:
  assumes "\<not> int (length history) < baseline_window cfg"
    and "detection_window cfg \<noteq> 0" and "baseline_window cfg \<noteq> 0"
  shows "calculate_momentum cfg number history =
     (if count_appearances number (slice_from (- baseline_window cfg) history) = 0
      then Inr (Some (if count_appearances number (slice_from (- detection_window cfg) history) > 0
                      then 999 else 0))
      else Inr (Some ((of_nat (count_appearances number (slice_from (- detection_window cfg) history))
                        / of_int (detection_window cfg))
                    / (of_nat (count_appearances number (slice_from (- baseline_window cfg) history))
                        / of_int (baseline_window cfg)))))"
  using assms by (simp add: calculate_momentum_def Let_def)

text \<open>
  Claim C1, as stated, at a zero detection window: with \<open>detection_window = 0\<close> and
  enough history, \<open>recent_count / detection_window\<close> raises \<open>ZeroDivisionError\<close>.
\<close>

theorem calculate_momentum_zero_window_raises:
  "calculate_momentum (default_config\<lparr>detection_window := 0, baseline_window := 1\<rparr>) 7
     [drawn_round [7]] = Inl ZeroDivisionError"
  by (simp add: calculate_momentum_def default_config_def)

text \<open>
  Claim C1, amended: when both window sizes are non-zero, \<open>calculate_momentum\<close> returns
  \<open>None\<close> exactly when the history is shorter than the baseline window; with enough
  history and a baseline count of zero it returns 999 if the number appeared in the
  detection window and 0 otherwise; and it raises nothing.
\<close>

theorem calculate_momentum_sentinels:
  assumes "detection_window cfg \<noteq> 0" and "baseline_window cfg \<noteq> 0"
  shows "(calculate_momentum cfg number history = Inr None
            \<longleftrightarrow> int (length history) < baseline_window cfg)
       \<and> (baseline_window cfg \<le> int (length history)
            \<and> count_appearances number (slice_from (- baseline_window cfg) history) = 0
          \<longrightarrow> calculate_momentum cfg number history =
                Inr (Some (if 0 < count_appearances number
                                    (slice_from (- detection_window cfg) history)
                           then 999 else 0)))
       \<and> (\<forall>e. calculate_momentum cfg number history \<noteq> Inl e)"
proof (cases "int (length history) < baseline_window cfg")
  case True
  then show ?thesis by (simp add: calculate_momentum_short)
next
  case False
  from calculate_momentum_long [OF False assms]
  show ?thesis using False by (simp split: if_splits)
qed

theorem calculate_momentum_sentinels_witness:
  "calculate_momentum (default_config\<lparr>detection_window := 2, baseline_window := 1\<rparr>) 7
     [drawn_round [7], drawn_round [1]] = Inr (Some 999)
   \<and> calculate_momentum default_config 7 [drawn_round [7]] = Inr None"
proof -
  let ?cfg = "default_config\<lparr>detection_window := 2, baseline_window := 1\<rparr>"
  let ?h = "[drawn_round [7], drawn_round [1]]"
  have w: "detection_window ?cfg \<noteq> 0" "baseline_window ?cfg \<noteq> 0"
    by (simp_all add: default_config_def)
  have b: "baseline_window ?cfg \<le> int (length ?h)
      \<and> count_appearances 7 (slice_from (- baseline_window ?cfg) ?h) = 0"
    by (simp add: default_config_def count_appearances_def slice_from_def slice_bound_def
        get_drawn_numbers_def drawn_round_def)
  have r: "0 < count_appearances 7 (slice_from (- detection_window ?cfg) ?h)"
    by (simp add: default_config_def count_appearances_def slice_from_def slice_bound_def
        get_drawn_numbers_def drawn_round_def)
  have d: "detection_window default_config \<noteq> 0" "baseline_window default_config \<noteq> 0"
    by (simp_all add: default_config_def)
  have s: "int (length [drawn_round [7]]) < baseline_window default_config"
    by (simp add: default_config_def)
  from calculate_momentum_sentinels [OF w, of 7 ?h] b r
  have "calculate_momentum ?cfg 7 ?h = Inr (Some 999)" by simp
  moreover from calculate_momentum_sentinels [OF d, of 7 "[drawn_round [7]]"] s
  have "calculate_momentum default_config 7 [drawn_round [7]] = Inr None" by simp
  ultimately show ?thesis by simp
qed

section \<open>The completion evaluators: full completion\<close>















section \<open>The completion evaluators: partial hits\<close>





















section \<open>The pattern generator: refresh policy and fallback\<close>

lemma get_pattern_refresh:
  assumes "should_refresh g r = Inr True"
  shows "get_pattern g history r shuffled =
     (if int (length history) < baseline_window (gen_config g)
      then (get_fallback_pattern (gen_config g) history shuffled, g)
      else (case generate_pattern (gen_config g) history of
              Inl e \<Rightarrow> (Inl e, g)
            | Inr p \<Rightarrow> (Inr p, g\<lparr>current_pattern := p, last_refresh_round := r\<rparr>)))"
  using assms by (simp add: get_pattern_def)

lemma get_pattern_cached:
  assumes "should_refresh g r = Inr False"
  shows "get_pattern g history r shuffled = (Inr (current_pattern g), g)"
  using assms by (simp add: get_pattern_def)

lemma should_refresh_iff:
  assumes "refresh_frequency (gen_config g) \<noteq> 0"
  shows "should_refresh g r
     = Inr (current_pattern g = [] \<or> r mod refresh_frequency (gen_config g) = 0)"
  using assms by (simp add: should_refresh_def)

lemma get_patterns_sticky:
  assumes "refresh_frequency (gen_config g) \<noteq> 0" and "current_pattern g \<noteq> []"
    and "\<forall>c\<in>set calls. fst (snd c) mod refresh_frequency (gen_config g) \<noteq> 0"
  shows "get_patterns g calls = (replicate (length calls) (Inr (current_pattern g)), g)"
  using assms
proof (induction calls)
  case Nil
  then show ?case by simp
next
  case (Cons c calls)
  from Cons.prems have "should_refresh g (fst (snd c)) = Inr False"
    by (simp add: should_refresh_iff)
  then have "get_pattern g (fst c) (fst (snd c)) (snd (snd c)) = (Inr (current_pattern g), g)"
    by (rule get_pattern_cached)
  with Cons show ?case by simp
qed

text \<open>
  Claim C4, as stated, on a fresh generator with the default configuration
  (\<open>refresh_frequency = 5\<close>, \<open>baseline_window = 50\<close>): the calls at rounds 11 and 12, on a
  history prefix of one round and then of two, both take the uncached fallback path and
  return different patterns.
\<close>

theorem fallback_patterns_differ:
  "get_patterns (new_generator default_config)
     [(short_history_1, 11, []), (short_history_2, 12, [])]
   = ([Inr [11, 12, 13, 14, 15, 16, 17, 18, 19, 20], Inr [1, 2, 3, 4, 5, 6, 7, 8, 9, 10]],
      new_generator default_config)"
  by code_simp

text \<open>
  Claim C4, amended: for a refresh frequency \<open>F \<noteq> 0\<close>, a call takes the refresh branch
  exactly when the cached pattern is empty or \<open>round_number mod F = 0\<close>; on that branch
  it returns the uncached fallback pattern when the history is shorter than the baseline
  window and otherwise recomputes and caches the pattern; off that branch it returns the
  cached pattern and leaves the generator unchanged. Hence, once a non-empty pattern is
  cached, calls at any rounds not divisible by \<open>F\<close> all return it, whatever their
  histories.
\<close>

theorem get_pattern_sticky_until_refresh:
  assumes "refresh_frequency (gen_config g) \<noteq> 0"
  shows "(current_pattern g = [] \<or> r mod refresh_frequency (gen_config g) = 0
          \<longrightarrow> get_pattern g history r shuffled =
                (if int (length history) < baseline_window (gen_config g)
                 then (get_fallback_pattern (gen_config g) history shuffled, g)
                 else (case generate_pattern (gen_config g) history of
                         Inl e \<Rightarrow> (Inl e, g)
                       | Inr p \<Rightarrow> (Inr p, g\<lparr>current_pattern := p, last_refresh_round := r\<rparr>))))
       \<and> (\<not> (current_pattern g = [] \<or> r mod refresh_frequency (gen_config g) = 0)
          \<longrightarrow> get_pattern g history r shuffled = (Inr (current_pattern g), g))
       \<and> (current_pattern g \<noteq> []
            \<and> (\<forall>c\<in>set calls. fst (snd c) mod refresh_frequency (gen_config g) \<noteq> 0)
          \<longrightarrow> get_patterns g calls = (replicate (length calls) (Inr (current_pattern g)), g))"
proof (intro conjI impI)
  assume "current_pattern g = [] \<or> r mod refresh_frequency (gen_config g) = 0"
  with assms have "should_refresh g r = Inr True" by (simp add: should_refresh_iff)
  then show "get_pattern g history r shuffled =
      (if int (length history) < baseline_window (gen_config g)
       then (get_fallback_pattern (gen_config g) history shuffled, g)
       else (case generate_pattern (gen_config g) history of
               Inl e \<Rightarrow> (Inl e, g)
             | Inr p \<Rightarrow> (Inr p, g\<lparr>current_pattern := p, last_refresh_round := r\<rparr>)))"
    by (rule get_pattern_refresh)
next
  assume "\<not> (current_pattern g = [] \<or> r mod refresh_frequency (gen_config g) = 0)"
  with assms have "should_refresh g r = Inr False" by (simp add: should_refresh_iff)
  then show "get_pattern g history r shuffled = (Inr (current_pattern g), g)"
    by (rule get_pattern_cached)
next
  assume "current_pattern g \<noteq> []
      \<and> (\<forall>c\<in>set calls. fst (snd c) mod refresh_frequency (gen_config g) \<noteq> 0)"
  with assms show "get_patterns g calls = (replicate (length calls) (Inr (current_pattern g)), g)"
    by (simp add: get_patterns_sticky)
qed

theorem get_pattern_sticky_until_refresh_witness:
  "get_pattern (new_generator default_config) short_history_1 11 []
     = (get_fallback_pattern default_config short_history_1 [], new_generator default_config)
   \<and> get_pattern cached_generator short_history_1 101 [] = (Inr [3, 7, 9], cached_generator)
   \<and> get_patterns cached_generator
        [(short_history_1, 101, []), (short_history_2, 102, []), ([], 103, []),
         (short_history_1, 104, [])]
      = ([Inr [3, 7, 9], Inr [3, 7, 9], Inr [3, 7, 9], Inr [3, 7, 9]], cached_generator)"
proof -
  let ?calls = "[(short_history_1, 101, []), (short_history_2, 102, []), ([], 103, []),
         (short_history_1, 104, [])] :: (round_data list \<times> int \<times> int list) list"
  have n: "refresh_frequency (gen_config (new_generator default_config)) = 5"
    "current_pattern (new_generator default_config) = []"
    "gen_config (new_generator default_config) = default_config"
    "baseline_window default_config = 50" "length short_history_1 = 1"
    "refresh_frequency default_config = 5"
    by (simp_all add: new_generator_def default_config_def short_history_1_def)
  have g: "refresh_frequency (gen_config cached_generator) = 5"
    "current_pattern cached_generator = [3, 7, 9]"
    by (simp_all add: cached_generator_def default_config_def)
  have f: "refresh_frequency (gen_config (new_generator default_config)) \<noteq> 0"
    "refresh_frequency (gen_config cached_generator) \<noteq> 0"
    by (simp_all add: n g)
  have a: "get_pattern (new_generator default_config) short_history_1 11 []
     = (get_fallback_pattern default_config short_history_1 [], new_generator default_config)"
    using get_pattern_sticky_until_refresh [OF f(1), where r = 11
        and history = short_history_1 and shuffled = "[]" and calls = "[]"]
    by (simp add: n)
  have b: "get_pattern cached_generator short_history_1 101 [] = (Inr [3, 7, 9], cached_generator)
      \<and> get_patterns cached_generator ?calls
          = ([Inr [3, 7, 9], Inr [3, 7, 9], Inr [3, 7, 9], Inr [3, 7, 9]], cached_generator)"
    using get_pattern_sticky_until_refresh [OF f(2), where r = 101
        and history = short_history_1 and shuffled = "[]" and calls = ?calls]
    by (simp add: g del: get_patterns.simps)
  from a b show ?thesis by (simp del: get_patterns.simps)
qed

text \<open>
  Claim C10: when the refresh condition holds and the history is shorter than the
  baseline window, \<open>get_pattern\<close> returns the fallback pattern and leaves the generator
  as it was, \<open>current_pattern\<close> and \<open>last_refresh_round\<close> included. So a generator whose
  cached pattern is empty stays so, and its next call refreshes again at any round; on
  a short history it falls back again.
\<close>

theorem fallback_not_cached:
  assumes "should_refresh g r = Inr True"
    and "int (length history) < baseline_window (gen_config g)"
  shows "get_pattern g history r shuffled
           = (get_fallback_pattern (gen_config g) history shuffled, g)
       \<and> current_pattern (snd (get_pattern g history r shuffled)) = current_pattern g
       \<and> last_refresh_round (snd (get_pattern g history r shuffled)) = last_refresh_round g
       \<and> (current_pattern g = []
          \<longrightarrow> should_refresh (snd (get_pattern g history r shuffled)) r' = Inr True
              \<and> (int (length history') < baseline_window (gen_config g)
                 \<longrightarrow> get_pattern (snd (get_pattern g history r shuffled)) history' r' shuffled'
                       = (get_fallback_pattern (gen_config g) history' shuffled', g)))"
proof -
  from assms have 1: "get_pattern g history r shuffled
      = (get_fallback_pattern (gen_config g) history shuffled, g)"
    by (simp add: get_pattern_refresh)
  have 2: "current_pattern g = [] \<Longrightarrow> should_refresh g r' = Inr True"
    by (simp add: should_refresh_def)
  from 1 2 show ?thesis by (simp add: get_pattern_refresh)
qed

theorem fallback_not_cached_witness:
  "get_pattern (new_generator default_config) short_history_1 11 []
     = (Inr [11, 12, 13, 14, 15, 16, 17, 18, 19, 20], new_generator default_config)
   \<and> get_pattern (new_generator default_config) short_history_2 12 []
     = (Inr [1, 2, 3, 4, 5, 6, 7, 8, 9, 10], new_generator default_config)"
proof -
  let ?g = "new_generator default_config"
  have r: "should_refresh ?g 11 = Inr True"
    by (simp add: should_refresh_def new_generator_def)
  have s: "int (length short_history_1) < baseline_window (gen_config ?g)"
    "int (length short_history_2) < baseline_window (gen_config ?g)"
    by (simp_all add: short_history_1_def short_history_2_def new_generator_def default_config_def)
  have e: "current_pattern ?g = []" "gen_config ?g = default_config"
    by (simp_all add: new_generator_def)
  have f1: "get_fallback_pattern default_config short_history_1 []
      = Inr [11, 12, 13, 14, 15, 16, 17, 18, 19, 20]"
    by code_simp
  have f2: "get_fallback_pattern default_config short_history_2 []
      = Inr [1, 2, 3, 4, 5, 6, 7, 8, 9, 10]"
    by code_simp
  note F = fallback_not_cached [OF r s(1), where shuffled = "[]" and r' = 12
      and history' = short_history_2 and shuffled' = "[]"]
  from F have 1: "get_pattern ?g short_history_1 11 []
      = (get_fallback_pattern (gen_config ?g) short_history_1 [], ?g)"
    by (rule conjunct1)
  from F e(1) s(2)
  have "get_pattern (snd (get_pattern ?g short_history_1 11 [])) short_history_2 12 []
      = (get_fallback_pattern (gen_config ?g) short_history_2 [], ?g)"
    by blast
  then have 2: "get_pattern ?g short_history_2 12 []
      = (get_fallback_pattern (gen_config ?g) short_history_2 [], ?g)"
    unfolding 1 snd_conv .
  from 1 2 show ?thesis by (simp add: e f1 f2)
qed

text \<open>
  Claim C8: with fewer future rounds than \<open>lookahead_rounds\<close>, both evaluators return
  their no-data result. Neither function indexes a list: the window is a slice, which
  cannot raise.
\<close>

theorem evaluators_no_data:
  "(lookahead_rounds > int (length history)
      \<longrightarrow> evaluate_pattern_performance history pattern lookahead_rounds bet_multis difficulty
            = (False, 0, 0))
   \<and> (current_idx + lookahead_rounds > int (length history)
      \<longrightarrow> evaluate_predictions pf history current_idx patterns lookahead_rounds pattern_size_arg
              bet_multis difficulty
            = (0, 0, 0, 0, 0))"
  by (simp add: evaluate_pattern_performance_def evaluate_predictions_def)

theorem evaluators_no_data_witness:
  "evaluate_pattern_performance short_history_2 [1, 2, 3] 30 example_payout ''high''
     = (False, 0, 0)
   \<and> evaluate_predictions exact_float short_history_2 1
        [\<lparr>numbers = [1, 2, 3], score = 2 :: rat\<rparr>] 30 3 example_payout ''high''
       = (0, 0, 0, 0, 0)"
proof -
  have "30 > int (length short_history_2)" "1 + 30 > int (length short_history_2)"
    by (simp_all add: short_history_2_def short_history_1_def)
  with evaluators_no_data [where lookahead_rounds = 30 and history = short_history_2
      and pattern = "[1, 2, 3]" and bet_multis = example_payout and difficulty = "''high''"
      and current_idx = 1 and patterns = "[\<lparr>numbers = [1, 2, 3], score = 2 :: rat\<rparr>]"
      and pattern_size_arg = 3 and pf = exact_float]
  show ?thesis by simp
qed

lemma generate_pattern_sorted:
  "generate_pattern cfg history = Inr p \<Longrightarrow> sorted p"
  by (auto simp: generate_pattern_def bind_err_def Let_def split: sum.splits if_splits)

lemma get_random_pattern_sorted:
  "sorted (get_random_pattern cfg shuffled)"
  by (simp add: get_random_pattern_def)

text \<open>
  Claim C5 on the insufficient-history path: with the default configuration and a
  history of two rounds, \<open>get_pattern\<close> returns the ten most frequent numbers in order
  of frequency, number 10 (drawn twice) first, not in ascending order.
  \<open>generate_pattern\<close> and \<open>get_random_pattern\<close> sort their result;
  \<open>get_fallback_pattern\<close> returns that of \<open>get_most_frequent_numbers\<close> as it is.
\<close>

theorem fallback_pattern_not_sorted:
  "fst (get_pattern (new_generator default_config) unsorted_history 10 [])
     = Inr [10, 1, 2, 3, 4, 5, 6, 7, 8, 9]
   \<and> \<not> sorted [10, 1, 2, 3, 4, 5, 6, 7, 8, 9 :: int]"
  by code_simp

section \<open>The backtest harnesses: success rate\<close>

lemma rate_bounds:
  assumes "c \<le> p"
  shows "0 \<le> rate c p" and "rate c p \<le> 100" and "rate c p = 0 \<longleftrightarrow> c = 0"
proof -
  show "0 \<le> rate c p" by (simp add: rate_def)
  show "rate c p \<le> 100"
  proof (cases "p > 0")
    case True
    from assms have "(of_nat c :: rat) * 100 \<le> 100 * of_nat p" by simp
    then show ?thesis using True by (simp add: rate_def pos_divide_le_eq)
  next
    case False
    then show ?thesis by (simp add: rate_def)
  qed
  show "rate c p = 0 \<longleftrightarrow> c = 0"
    using assms by (auto simp: rate_def)
qed

lemma for_each_invariant:
  assumes "\<And>st x st'. I st \<Longrightarrow> body st x = Inr st' \<Longrightarrow> I st'"
    and "I st" and "for_each body xs st = Inr st'"
  shows "I st'"
  using assms(2,3)
proof (induction xs arbitrary: st)
  case Nil
  then show ?case by simp
next
  case (Cons x xs)
  from Cons.prems(2) obtain st1 where 1: "body st x = Inr st1" and 2: "for_each body xs st1 = Inr st'"
    by (auto simp: bind_err_def split: sum.splits)
  from assms(1) [OF Cons.prems(1) 1] have "I st1" .
  from Cons.IH [OF this 2] show ?case .
qed

lemma bt_step_counts:
  assumes "m_total_completions st \<le> m_total_predictions st"
    and "bt_step history bet_multis difficulty shuffle_at st i = Inr st'"
  shows "m_total_completions st' \<le> m_total_predictions st'"
  using assms
  by (auto simp: bt_step_def Let_def split: prod.splits sum.splits if_splits)

lemma eval_pattern_successes:
  "successes (eval_pattern w l k bm d acc p) \<le> successes acc + 1"
  by (simp add: eval_pattern_def Let_def split: option.splits)

lemma foldl_eval_pattern_successes:
  "successes (foldl (eval_pattern w l k bm d) acc ps) \<le> successes acc + length ps"
proof (induction ps arbitrary: acc)
  case Nil
  then show ?case by simp
next
  case (Cons p ps)
  from Cons.IH [of "eval_pattern w l k bm d acc p"] eval_pattern_successes [of w l k bm d acc p]
  show ?case by simp
qed

lemma evaluate_predictions_counts:
  assumes "evaluate_predictions pf history i patterns l k bm d = (preds, succ, a, m, b)"
  shows "succ \<le> preds"
proof (cases "i + l > int (length history)")
  case True
  with assms show ?thesis by (simp add: evaluate_predictions_def)
next
  case False
  with assms foldl_eval_pattern_successes [of "slice i (i + l) history" l k bm d
      "\<lparr>successes = 0, maintaining = 0, rounds_to_hit = [], profits = []\<rparr>" patterns]
  show ?thesis by (auto simp: evaluate_predictions_def Let_def)
qed

lemma opt_step_counts:
  fixes ops :: "'f::linorder float_ops"
  assumes "o_total_successes st \<le> o_total_predictions st"
    and "opt_step ops pf history ps k bm d ur df st i = Inr st'"
  shows "o_total_successes st' \<le> o_total_predictions st'"
proof -
  from assms(2) consider "st' = st"
    | preds succ a m b and fp :: "'f pattern_obj list" where
      "evaluate_predictions pf history i fp 30 k bm d = (preds, succ, a, m, b)"
      "o_total_predictions st' = o_total_predictions st + preds"
      "o_total_successes st' = o_total_successes st + succ"
    by (auto simp: opt_step_def Let_def bind_err_def split: sum.splits if_splits prod.splits)
  then show ?thesis
  proof cases
    case 1
    with assms(1) show ?thesis by simp
  next
    case 2
    from evaluate_predictions_counts [OF 2(1)] 2(2,3) assms(1) show ?thesis by simp
  qed
qed

lemma run_backtest_counts:
  assumes "run_backtest history cfg bet_multis difficulty shuffle_at = Inr res"
  shows "r_total_completions res \<le> r_total_predictions res"
    and "r_success_rate res = rate (r_total_completions res) (r_total_predictions res)"
proof -
  from assms obtain idxs st where
    st: "for_each (bt_step history bet_multis difficulty shuffle_at) idxs
           \<lparr>m_generator = new_generator cfg,
            m_total_predictions = 0, m_total_completions = 0,
            m_total_maintaining = 0, m_rounds_to_hit = [], m_profits = [],
            m_pattern_changes = 0, m_last_pattern = []\<rparr> = Inr st"
    and res: "res = bt_finish cfg bet_multis st"
    by (auto simp: run_backtest_def Let_def bind_err_def split: sum.splits)
  have "m_total_completions st \<le> m_total_predictions st"
    by (rule for_each_invariant [where I = "\<lambda>s. m_total_completions s \<le> m_total_predictions s",
          OF _ _ st]) (auto intro: bt_step_counts)
  with res show "r_total_completions res \<le> r_total_predictions res"
    and "r_success_rate res = rate (r_total_completions res) (r_total_predictions res)"
    by (simp_all add: bt_finish_def)
qed

lemma run_backtest_params_counts:
  assumes "run_backtest_params ops pf history ps k bm d ur df = Inr res"
  shows "q_total_successes res \<le> q_total_predictions res"
    and "q_success_rate res = rate (q_total_successes res) (q_total_predictions res)"
proof -
  from assms obtain idxs st where
    st: "for_each (opt_step ops pf history ps k bm d ur df) idxs
           \<lparr>o_total_predictions = 0, o_total_successes = 0, o_total_maintaining = 0,
            o_total_rounds_to_hit = [], o_total_profit = [],
            o_evaluation_points = 0\<rparr> = Inr st"
    and res: "res = opt_finish pf ps st"
    by (auto simp: run_backtest_params_def Let_def bind_err_def split: sum.splits)
  have "o_total_successes st \<le> o_total_predictions st"
    by (rule for_each_invariant [where I = "\<lambda>s. o_total_successes s \<le> o_total_predictions s",
          OF _ _ st]) (auto intro: opt_step_counts)
  with res show "q_total_successes res \<le> q_total_predictions res"
    and "q_success_rate res = rate (q_total_successes res) (q_total_predictions res)"
    by (simp_all add: opt_finish_def)
qed

lemma losing_run:
  "run_backtest losing_history small_window_config None ''high'' no_shuffle = Inr losing_result"
  by code_simp

lemma empty_run:
  "run_backtest_params exact_ops exact_float [drawn_round [1, 2, 3]] example_params 3 None
     ''high'' False (49 / 50) = Inr empty_result"
  by code_simp

text \<open>
  Claim C9, as stated, on a completed run: one prediction, no completion, and a success
  rate of 0 although \<open>total_predictions\<close> is 1.
\<close>

theorem zero_success_rate_with_predictions:
  "run_backtest losing_history small_window_config None ''high'' no_shuffle = Inr losing_result
   \<and> r_success_rate losing_result = 0 \<and> r_total_predictions losing_result = 1"
  using losing_run by (simp add: losing_result_def)

text \<open>
  Claim C9, amended: for every run of either harness that returns, the success rate
  lies in \<open>[0, 100]\<close>; it is 0 exactly when no prediction completed, which includes
  every run without predictions.
\<close>

theorem success_rate_range:
  "(run_backtest history cfg bet_multis difficulty shuffle_at = Inr res
      \<longrightarrow> 0 \<le> r_success_rate res \<and> r_success_rate res \<le> 100
          \<and> (r_success_rate res = 0 \<longleftrightarrow> r_total_completions res = 0)
          \<and> (r_total_predictions res = 0 \<longrightarrow> r_success_rate res = 0))
   \<and> (run_backtest_params ops pf history' ps pattern_size_arg bet_multis' difficulty'
         use_recency decay_factor = Inr res'
      \<longrightarrow> 0 \<le> q_success_rate res' \<and> q_success_rate res' \<le> 100
          \<and> (q_success_rate res' = 0 \<longleftrightarrow> q_total_successes res' = 0)
          \<and> (q_total_predictions res' = 0 \<longrightarrow> q_success_rate res' = 0))"
proof (intro conjI impI)
  assume a: "run_backtest history cfg bet_multis difficulty shuffle_at = Inr res"
  note c = run_backtest_counts [OF a]
  from rate_bounds [OF c(1)] c
  show "0 \<le> r_success_rate res" "r_success_rate res \<le> 100"
    "r_success_rate res = 0 \<longleftrightarrow> r_total_completions res = 0"
    by simp_all
  assume "r_total_predictions res = 0"
  with c show "r_success_rate res = 0" by (simp add: rate_def)
next
  assume a: "run_backtest_params ops pf history' ps pattern_size_arg bet_multis' difficulty'
         use_recency decay_factor = Inr res'"
  note c = run_backtest_params_counts [OF a]
  from rate_bounds [OF c(1)] c
  show "0 \<le> q_success_rate res'" "q_success_rate res' \<le> 100"
    "q_success_rate res' = 0 \<longleftrightarrow> q_total_successes res' = 0"
    by simp_all
  assume "q_total_predictions res' = 0"
  with c show "q_success_rate res' = 0" by (simp add: rate_def)
qed

theorem success_rate_range_witness:
  "run_backtest losing_history small_window_config None ''high'' no_shuffle = Inr losing_result
   \<and> 0 \<le> r_success_rate losing_result \<and> r_success_rate losing_result \<le> 100
   \<and> r_total_completions losing_result = 0
   \<and> run_backtest_params exact_ops exact_float [drawn_round [1, 2, 3]] example_params 3 None
       ''high'' False (49 / 50) = Inr empty_result
   \<and> q_success_rate empty_result = 0"
  using success_rate_range [where history = losing_history and cfg = small_window_config
      and bet_multis = None and difficulty = "''high''" and shuffle_at = no_shuffle
      and res = losing_result and history' = "[drawn_round [1, 2, 3]]" and ps = example_params
      and pattern_size_arg = 3 and bet_multis' = None and difficulty' = "''high''"
      and use_recency = False and decay_factor = "49 / 50" and res' = empty_result
      and ops = exact_ops and pf = exact_float]
    losing_run empty_run
  by (simp add: losing_result_def empty_result_def)

section \<open>Pattern discovery: scores, ranking and order of the rounds\<close>

lemma map_of_bump:
  "map_of (map (\<lambda>(k, v). if k = key then (k, f v) else (k, v)) ps) k'
     = (if k' = key then map_option f (map_of ps key) else map_of ps k')"
  by (induction ps) auto

lemma add_weight_keys:
  "map fst (add_weight ops ps w key)
     = (if key \<in> set (map fst ps) then map fst ps else map fst ps @ [key])"
  by (auto simp: add_weight_def split: prod.splits)

lemma add_weight_distinct:
  "distinct (map fst ps) \<Longrightarrow> distinct (map fst (add_weight ops ps w key))"
  by (simp add: add_weight_keys)

lemma add_weight_value:
  "score_value ops (add_weight ops ps w key) k'
     = (if k' = key then fl_add ops (score_value ops ps key) w else score_value ops ps k')"
proof (cases "key \<in> fst ` set ps")
  case True
  then obtain v where "map_of ps key = Some v"
    by (metis map_of_eq_None_iff not_Some_eq)
  with True show ?thesis
    by (simp add: add_weight_def score_value_def map_of_bump [where f = "\<lambda>v. fl_add ops v w"])
next
  case False
  then have "map_of ps key = None" by (simp add: map_of_eq_None_iff)
  with False show ?thesis
    by (auto simp: add_weight_def score_value_def map_add_def split: option.splits)
qed

lemma foldl_add_weight:
  assumes "distinct (map fst ps)"
  shows "distinct (map fst (foldl (\<lambda>ps combo. add_weight ops ps w (sort combo)) ps combos))"
    and "set (map fst (foldl (\<lambda>ps combo. add_weight ops ps w (sort combo)) ps combos))
           = set (map fst ps) \<union> set (map sort combos)"
    and "score_value ops (foldl (\<lambda>ps combo. add_weight ops ps w (sort combo)) ps combos) k'
           = foldl (fl_add ops) (score_value ops ps k')
               (replicate (count_list (map sort combos) k') w)"
  using assms
proof (induction combos arbitrary: ps)
  case Nil
  { case 1 then show ?case by simp }
  { case 2 then show ?case by simp }
  { case 3 then show ?case by simp }
next
  case (Cons c combos)
  { case 1
    then have "distinct (map fst (add_weight ops ps w (sort c)))" by (rule add_weight_distinct)
    from Cons.IH(1) [OF this] show ?case by simp }
  { case 2
    then have d: "distinct (map fst (add_weight ops ps w (sort c)))" by (rule add_weight_distinct)
    from Cons.IH(2) [OF d] show ?case by (auto simp: add_weight_keys split: if_splits) }
  { case 3
    then have d: "distinct (map fst (add_weight ops ps w (sort c)))" by (rule add_weight_distinct)
    from Cons.IH(3) [OF d] show ?case
      by (simp add: add_weight_value) }
qed

lemma score_rounds_result:
  assumes "0 \<le> k" and "distinct (map fst ps)"
    and "\<forall>j<length rs. weight_at (idx + j) = Inr (weight (idx + j))"
  shows "\<exists>res. score_rounds ops k weight_at rs idx ps = Inr res
     \<and> distinct (map fst res)
     \<and> set (map fst res)
         = set (map fst ps) \<union> (\<Union>r\<in>set rs. set (map sort (combinations (get_drawn_numbers r) (nat k))))
     \<and> (\<forall>key. score_value ops res key
           = foldl (fl_add ops) (score_value ops ps key)
               (concat (map (\<lambda>j. replicate (occurrences key (rs ! j) k) (weight (idx + j)))
                          [0..<length rs])))"
  using assms(2,3)
proof (induction rs arbitrary: idx ps)
  case Nil
  then show ?case by simp
next
  case (Cons r rs)
  let ?combos = "combinations (get_drawn_numbers r) (nat k)"
  let ?ps' = "foldl (\<lambda>ps combo. add_weight ops ps (weight idx) (sort combo)) ps ?combos"
  note f = foldl_add_weight [OF Cons.prems(1), where ops = ops and w = "weight idx"
      and combos = ?combos]
  from Cons.prems(2) have w0: "weight_at idx = Inr (weight idx)" by force
  from Cons.prems(2) have ws: "\<forall>j<length rs. weight_at (Suc idx + j) = Inr (weight (Suc idx + j))"
    by force
  from Cons.IH [OF f(1) ws] obtain res where
    res: "score_rounds ops k weight_at rs (Suc idx) ?ps' = Inr res"
    and d: "distinct (map fst res)"
    and ks: "set (map fst res)
         = set (map fst ?ps') \<union> (\<Union>r\<in>set rs. set (map sort (combinations (get_drawn_numbers r) (nat k))))"
    and v: "\<And>key. score_value ops res key
           = foldl (fl_add ops) (score_value ops ?ps' key)
               (concat (map (\<lambda>j. replicate (occurrences key (rs ! j) k) (weight (Suc idx + j)))
                          [0..<length rs]))"
    by blast
  have 1: "score_rounds ops k weight_at (r # rs) idx ps = Inr res"
    using assms(1) res w0 by (simp add: get_combinations_def bind_err_def)
  have 2: "set (map fst res)
      = set (map fst ps) \<union> (\<Union>r\<in>set (r # rs). set (map sort (combinations (get_drawn_numbers r) (nat k))))"
    unfolding ks f(2) by auto
  have u: "[0..<length (r # rs)] = 0 # map Suc [0..<length rs]"
    by (simp add: upt_conv_Cons map_Suc_upt del: upt_Suc)
  have 3: "score_value ops res key
           = foldl (fl_add ops) (score_value ops ps key)
               (concat (map (\<lambda>j. replicate (occurrences key ((r # rs) ! j) k) (weight (idx + j)))
                          [0..<length (r # rs)]))"
    for key
    unfolding v [of key] f(3) [of key] u
    by (simp add: occurrences_def comp_def)
  from 1 d 2 3 show ?case by blast
qed

lemma count_list_pos: "0 < count_list xs x \<longleftrightarrow> x \<in> set xs"
  using count_list_0_iff [of xs x] by auto

lemma accumulate_scores_result:
  assumes "0 \<le> k"
    and "\<forall>idx<length sample.
           round_weight ops use_recency decay_factor (length sample) idx = Inr (weight idx)"
  shows "\<exists>scores. accumulate_scores ops sample k use_recency decay_factor = Inr scores
     \<and> distinct (map fst scores)
     \<and> (\<forall>key. map_of scores key
           = (if \<exists>r\<in>set sample. 0 < occurrences key r k
              then Some (float_sum ops (occurrence_weights weight sample k key)) else None))"
proof -
  from assms(2) have w: "\<forall>j<length sample.
      round_weight ops use_recency decay_factor (length sample) (0 + j) = Inr (weight (0 + j))"
    by simp
  from score_rounds_result [OF assms(1) _ w, of "[]" ops]
  obtain scores where
    res: "accumulate_scores ops sample k use_recency decay_factor = Inr scores"
    and d: "distinct (map fst scores)"
    and ks: "set (map fst scores)
         = (\<Union>r\<in>set sample. set (map sort (combinations (get_drawn_numbers r) (nat k))))"
    and v: "\<And>key. score_value ops scores key
           = float_sum ops (occurrence_weights weight sample k key)"
    by (auto simp: accumulate_scores_def score_value_def float_sum_def occurrence_weights_def)
  have m: "map_of scores key
           = (if \<exists>r\<in>set sample. 0 < occurrences key r k
              then Some (float_sum ops (occurrence_weights weight sample k key)) else None)" for key
  proof (cases "key \<in> set (map fst scores)")
    case True
    then obtain x where "map_of scores key = Some x"
      by (metis map_of_eq_None_iff not_Some_eq set_map)
    moreover from this have "x = float_sum ops (occurrence_weights weight sample k key)"
      using v [of key] by (simp add: score_value_def)
    moreover from True have "\<exists>r\<in>set sample. 0 < occurrences key r k"
      unfolding ks occurrences_def by (auto simp: count_list_pos)
    ultimately show ?thesis by simp
  next
    case False
    then have "map_of scores key = None" by (simp add: map_of_eq_None_iff)
    moreover from False have "\<not> (\<exists>r\<in>set sample. 0 < occurrences key r k)"
      unfolding ks occurrences_def by (auto simp: count_list_pos)
    ultimately show ?thesis by simp
  qed
  from res d m show ?thesis by blast
qed

lemma length_slice_to_min:
  "0 \<le> n \<Longrightarrow> length (slice_to n xs) = min (nat n) (length xs)"
  by (simp add: slice_to_def slice_bound_def)

lemma sorted_wrt_take_drop:
  assumes "sorted_wrt P xs" and "a \<in> set (take n xs)" and "b \<in> set (drop n xs)"
  shows "P a b"
proof -
  from assms(1) have "sorted_wrt P (take n xs @ drop n xs)" by simp
  with assms(2,3) show ?thesis unfolding sorted_wrt_append by blast
qed

lemma set_sorted_descending: "set (sorted_descending xs) = set xs"
  by (simp add: sorted_descending_def)

lemma length_sorted_descending: "length (sorted_descending xs) = length xs"
  by (simp add: sorted_descending_def)

lemma ranked_descending:
  "sorted_wrt (\<lambda>a b. snd b \<le> snd a) (sorted_descending xs)"
proof -
  have "sorted (map snd (sort_key snd (rev xs)))" by (rule sorted_sort_key)
  then have "sorted_wrt (\<lambda>a b. snd a \<le> snd b) (sort_key snd (rev xs))"
    by (simp add: sorted_map)
  then show ?thesis by (simp add: sorted_descending_def sorted_wrt_rev)
qed


lemma find_common_patterns_result:
  assumes "accumulate_scores ops (slice_from (- discovery_window) history) k use_recency
             decay_factor = Inr scores"
    and "distinct (map fst scores)"
  shows "\<exists>out. find_common_patterns ops history k top_n discovery_window use_recency
             decay_factor = Inr out
     \<and> map (\<lambda>p. (numbers p, score p)) out = slice_to top_n (sorted_descending scores)
     \<and> sorted_wrt (\<lambda>a b. score b \<le> score a) out
     \<and> (\<forall>p\<in>set out. map_of scores (numbers p) = Some (score p))
     \<and> (0 \<le> top_n \<longrightarrow> length out = min (nat top_n) (length scores)
          \<and> (\<forall>key v. map_of scores key = Some v
                \<longrightarrow> (\<exists>p\<in>set out. numbers p = key \<and> score p = v)
                    \<or> (\<forall>p\<in>set out. v \<le> score p)))
     \<and> (int (length scores) \<le> top_n \<longrightarrow> (\<lambda>p. (numbers p, score p)) ` set out = set scores)"
proof -
  let ?ranked = "sorted_descending scores"
  let ?top = "slice_to top_n ?ranked"
  let ?out = "map (\<lambda>x. \<lparr>numbers = fst x, score = snd x\<rparr>) ?top"
  obtain n where top: "?top = take n ?ranked"
    by (simp add: slice_to_def)
  have out: "find_common_patterns ops history k top_n discovery_window use_recency
             decay_factor = Inr ?out"
    using assms(1) by (simp add: find_common_patterns_def bind_err_def Let_def)
  have e: "map (\<lambda>p. (numbers p, score p)) ?out = ?top"
    by (simp add: comp_def)
  have "sorted_wrt (\<lambda>a b. snd b \<le> snd a) ?top"
    unfolding top by (rule sorted_wrt_take) (rule ranked_descending)
  then have s: "sorted_wrt (\<lambda>a b. score b \<le> score a) ?out"
    by (simp add: sorted_wrt_map)
  have sub: "set ?top \<subseteq> set scores"
    unfolding top using set_take_subset [of n ?ranked] by (simp add: set_sorted_descending)
  have c: "\<forall>p\<in>set ?out. map_of scores (numbers p) = Some (score p)"
    using sub assms(2) by auto
  have l: "length ?out = min (nat top_n) (length scores)" if "0 \<le> top_n"
    using that by (simp add: length_slice_to_min length_sorted_descending)
  have t: "(\<exists>p\<in>set ?out. numbers p = key \<and> score p = v) \<or> (\<forall>p\<in>set ?out. v \<le> score p)"
    if z: "0 \<le> top_n" and m: "map_of scores key = Some v" for key v
  proof -
    from z have top': "?top = take (nat top_n) ?ranked"
      by (simp add: slice_to_def slice_bound_def)
    from m have "(key, v) \<in> set ?ranked"
      by (simp add: map_of_SomeD set_sorted_descending)
    then have "(key, v) \<in> set (take (nat top_n) ?ranked) \<or> (key, v) \<in> set (drop (nat top_n) ?ranked)"
      by (metis Un_iff append_take_drop_id set_append)
    then show ?thesis
    proof
      assume "(key, v) \<in> set (take (nat top_n) ?ranked)"
      then have "\<lparr>numbers = key, score = v\<rparr> \<in> set ?out"
        unfolding top' by force
      then show ?thesis by force
    next
      assume b: "(key, v) \<in> set (drop (nat top_n) ?ranked)"
      have "v \<le> score p" if "p \<in> set ?out" for p
      proof -
        from that obtain x where x: "x \<in> set (take (nat top_n) ?ranked)" and p: "score p = snd x"
          unfolding top' by auto
        from sorted_wrt_take_drop [OF ranked_descending x b] p show ?thesis by simp
      qed
      then show ?thesis by blast
    qed
  qed
  have a: "(\<lambda>p. (numbers p, score p)) ` set ?out = set scores" if "int (length scores) \<le> top_n"
  proof -
    from that have "?top = ?ranked"
      by (simp add: slice_to_def slice_bound_def length_sorted_descending)
    then have "set ?top = set scores" by (simp add: set_sorted_descending)
    then show ?thesis by (simp add: image_image)
  qed
  from out e s c l t a show ?thesis by blast
qed








lemma concat_replicate_const:
  "concat (map (\<lambda>i. replicate (f i) x) xs) = replicate (sum_list (map f xs)) x"
  by (induction xs) (simp_all add: replicate_add)

lemma sum_list_nth_map:
  "sum_list (map (\<lambda>idx. g (xs ! idx)) [0..<length xs]) = sum_list (map g xs)"
proof -
  have "map (\<lambda>idx. g (xs ! idx)) [0..<length xs] = map g (map ((!) xs) [0..<length xs])"
    by simp
  then show ?thesis by (simp only: map_nth)
qed

lemma unweighted_occurrence_weights:
  "occurrence_weights (\<lambda>idx. x) sample k key
     = replicate (total_occurrences key (mset sample) k) x"
proof -
  have "sum_list (map (\<lambda>r. occurrences key r k) sample)
      = sum_mset (mset (map (\<lambda>r. occurrences key r k) sample))"
    by (simp only: sum_mset_sum_list)
  then show ?thesis
    by (simp add: occurrence_weights_def concat_replicate_const total_occurrences_def
        sum_list_nth_map [where g = "\<lambda>r. occurrences key r k"])
qed

lemma total_occurrences_pos:
  "0 < total_occurrences key (mset sample) k \<longleftrightarrow> (\<exists>r\<in>set sample. 0 < occurrences key r k)"
  by (auto simp: total_occurrences_def sum_mset_0_iff zero_less_iff_neq_zero
      simp del: neq0_conv)

lemma unweighted_scores:
  assumes "0 \<le> k"
  shows "\<exists>scores. accumulate_scores ops sample k False decay_factor = Inr scores
     \<and> distinct (map fst scores)
     \<and> (\<forall>key. map_of scores key
           = (if 0 < total_occurrences key (mset sample) k
              then Some (float_sum ops
                           (replicate (total_occurrences key (mset sample) k) (fl_one ops)))
              else None))"
proof -
  have "\<forall>idx<length sample.
      round_weight ops False decay_factor (length sample) idx = Inr (fl_one ops)"
    by (simp add: round_weight_def)
  from accumulate_scores_result [OF assms this]
  show ?thesis
    by (simp only: unweighted_occurrence_weights total_occurrences_pos)
qed

lemma accumulate_scores_negative:
  assumes "k < 0"
  shows "accumulate_scores ops sample k use_recency decay_factor
     = (if sample = [] then Inr [] else Inl ValueError)"
  using assms
  by (cases sample) (simp_all add: accumulate_scores_def get_combinations_def bind_err_def)

lemma map_slice_to: "map f (slice_to n xs) = slice_to n (map f xs)"
  by (simp add: slice_to_def slice_bound_def take_map)

lemma scores_sorted_descending:
  fixes xs ys :: "(int list \<times> 'f::linorder) list"
  assumes "mset (map snd xs) = mset (map snd ys)"
  shows "map snd (sorted_descending xs) = map snd (sorted_descending ys)"
proof -
  have k: "map snd (sort_key snd zs) = sort (map snd zs)" for zs :: "(int list \<times> 'f) list"
    by (rule properties_for_sort [symmetric]) simp_all
  from assms have "mset (map snd (rev xs)) = mset (map snd (rev ys))" by simp
  then have "sort (map snd (rev xs)) = sort (map snd (rev ys))"
    by (metis mset_sort properties_for_sort sorted_sort)
  then show ?thesis
    by (simp add: sorted_descending_def rev_map [symmetric] k del: rev_map)
qed

lemma pattern_obj_pair_inj: "inj (\<lambda>p :: 'f pattern_obj. (numbers p, score p))"
  by (rule injI) simp

lemma unweighted_permutation_nonneg:
  fixes ops :: "'f::linorder float_ops"
  assumes "mset (slice_from (- dw) history) = mset (slice_from (- dw') history')"
    and "0 \<le> k"
  shows "scores_of (accumulate_scores ops (slice_from (- dw) history) k False d)
           = scores_of (accumulate_scores ops (slice_from (- dw') history') k False d')
       \<and> (\<exists>out out'. find_common_patterns ops history k top_n dw False d = Inr out
             \<and> find_common_patterns ops history' k top_n dw' False d' = Inr out'
             \<and> map score out = map score out'
             \<and> (int (length out) < top_n \<longrightarrow> set out = set out'))"
proof -
  let ?w = "slice_from (- dw) history" and ?w' = "slice_from (- dw') history'"
  from unweighted_scores [OF assms(2), of ops ?w d] obtain s where
    s: "accumulate_scores ops ?w k False d = Inr s" and ds: "distinct (map fst s)"
    and ms: "\<And>key. map_of s key
         = (if 0 < total_occurrences key (mset ?w) k
            then Some (float_sum ops (replicate (total_occurrences key (mset ?w) k) (fl_one ops)))
            else None)"
    by blast
  from unweighted_scores [OF assms(2), of ops ?w' d'] obtain s' where
    s': "accumulate_scores ops ?w' k False d' = Inr s'" and ds': "distinct (map fst s')"
    and ms': "\<And>key. map_of s' key
         = (if 0 < total_occurrences key (mset ?w') k
            then Some (float_sum ops (replicate (total_occurrences key (mset ?w') k) (fl_one ops)))
            else None)"
    by blast
  have "map_of s key = map_of s' key" for key
    unfolding ms ms' assms(1) ..
  then have eq: "map_of s = map_of s'" by (rule ext)
  with s s' have 1: "scores_of (accumulate_scores ops ?w k False d)
         = scores_of (accumulate_scores ops ?w' k False d')"
    by (simp add: scores_of_def)
  from eq ds ds' have set: "set s = set s'" by (simp add: map_of_inject_set)
  from ds ds' have "distinct s" "distinct s'" by (simp_all add: distinct_map)
  with set have "mset s = mset s'" by (simp add: set_eq_iff_mset_eq_distinct)
  then have msnd: "mset (map snd s) = mset (map snd s')" and len: "length s = length s'"
    by (metis mset_map, metis size_mset)
  from find_common_patterns_result [OF s ds, of top_n] obtain o1 where
    o1: "find_common_patterns ops history k top_n dw False d = Inr o1"
    and e1: "map (\<lambda>p. (numbers p, score p)) o1 = slice_to top_n (sorted_descending s)"
    and l1: "0 \<le> top_n \<longrightarrow> length o1 = min (nat top_n) (length s)"
    and a1: "int (length s) \<le> top_n \<longrightarrow> (\<lambda>p. (numbers p, score p)) ` set o1 = set s"
    by blast
  from find_common_patterns_result [OF s' ds', of top_n] obtain o2 where
    o2: "find_common_patterns ops history' k top_n dw' False d' = Inr o2"
    and e2: "map (\<lambda>p. (numbers p, score p)) o2 = slice_to top_n (sorted_descending s')"
    and a2: "int (length s') \<le> top_n \<longrightarrow> (\<lambda>p. (numbers p, score p)) ` set o2 = set s'"
    by blast
  have "map score o1 = map snd (map (\<lambda>p. (numbers p, score p)) o1)" by (simp add: comp_def)
  also have "\<dots> = slice_to top_n (map snd (sorted_descending s))"
    by (simp only: e1 map_slice_to)
  also have "\<dots> = slice_to top_n (map snd (sorted_descending s'))"
    by (simp only: scores_sorted_descending [OF msnd])
  also have "\<dots> = map snd (map (\<lambda>p. (numbers p, score p)) o2)"
    by (simp only: e2 map_slice_to)
  also have "\<dots> = map score o2" by (simp add: comp_def)
  finally have sc: "map score o1 = map score o2" .
  have "set o1 = set o2" if lt: "int (length o1) < top_n"
  proof -
    from lt have z: "0 \<le> top_n" by simp
    with l1 lt have "int (length s) \<le> top_n" by (simp add: min_def split: if_splits)
    with a1 a2 len set have "(\<lambda>p. (numbers p, score p)) ` set o1
        = (\<lambda>p. (numbers p, score p)) ` set o2"
      by simp
    then show ?thesis by (simp only: inj_image_eq_iff [OF pattern_obj_pair_inj])
  qed
  with 1 o1 o2 sc show ?thesis by blast
qed

lemma find_common_patterns_negative:
  fixes ops :: "'f::linorder float_ops"
  assumes "k < 0"
  shows "find_common_patterns ops history k top_n dw use_recency d
     = (if slice_from (- dw) history = [] then Inr [] else Inl ValueError)"
  using assms
  by (simp add: find_common_patterns_def accumulate_scores_negative bind_err_def
      sorted_descending_def slice_to_def)

lemma unweighted_permutation:
  fixes ops :: "'f::linorder float_ops"
  assumes "mset (slice_from (- dw) history) = mset (slice_from (- dw') history')"
  shows "scores_of (accumulate_scores ops (slice_from (- dw) history) k False d)
           = scores_of (accumulate_scores ops (slice_from (- dw') history') k False d')
       \<and> (\<forall>e. find_common_patterns ops history k top_n dw False d = Inl e
             \<longleftrightarrow> find_common_patterns ops history' k top_n dw' False d' = Inl e)
       \<and> (\<forall>out out'. find_common_patterns ops history k top_n dw False d = Inr out
             \<and> find_common_patterns ops history' k top_n dw' False d' = Inr out'
             \<longrightarrow> map score out = map score out'
                 \<and> (int (length out) < top_n \<longrightarrow> set out = set out'))"
proof (cases "0 \<le> k")
  case True
  from unweighted_permutation_nonneg [OF assms True, of ops d d' top_n]
  show ?thesis by auto
next
  case False
  then have neg: "k < 0" by simp
  from assms have "slice_from (- dw) history = [] \<longleftrightarrow> slice_from (- dw') history' = []"
    by (metis mset_zero_iff)
  with neg show ?thesis
    by (auto simp: find_common_patterns_negative accumulate_scores_negative split: if_splits)
qed

lemma two_round_recency:
  assumes "fl_pow ops x 0 = Inr (fl_one ops)" and "fl_pow ops x 1 = Inr x"
    and "fl_add ops (fl_zero ops) x = x" and "fl_add ops (fl_zero ops) (fl_one ops) = fl_one ops"
  shows "accumulate_scores ops (slice_from (- 2) two_round_window) 2 True x
           = Inr [([1, 2], x), ([3, 4], fl_one ops)]"
    and "accumulate_scores ops (slice_from (- 2) (rev two_round_window)) 2 True x
           = Inr [([3, 4], x), ([1, 2], fl_one ops)]"
  using assms
  by (simp_all add: accumulate_scores_def two_round_window_def slice_from_def slice_bound_def
      round_weight_def get_combinations_def get_drawn_numbers_def drawn_round_def bind_err_def
      add_weight_def numeral_2_eq_2)

text \<open>
  Claim C7: without recency weighting the score of a pattern is the float sum of as many
  \<open>1.0\<close> as the pattern has occurrences in the rounds of the window, whatever their
  order, and Pattern Discovery returns the scored patterns with these scores. So two
  windows that hold the same rounds in a different order give every pattern the same
  score: the accumulated scores agree, the returned scores agree in order, and the same
  patterns are returned when \<open>top_n\<close> cuts nothing off. With recency weighting and a
  decay factor other than \<open>1.0\<close>, the window of the rounds \<open>{1, 2}\<close> and \<open>{3, 4}\<close> gives
  the pattern \<open>(1, 2)\<close> the score \<open>decay_factor\<close>, and the reversed window gives it
  \<open>1.0\<close>.
\<close>

theorem discovery_order_invariance:
  fixes ops :: "'f::linorder float_ops"
  shows "(0 \<le> k
      \<longrightarrow> (\<exists>scores out.
             accumulate_scores ops (slice_from (- dw) history) k False d = Inr scores
           \<and> (\<forall>key. map_of scores key
                 = (if 0 < total_occurrences key (mset (slice_from (- dw) history)) k
                    then Some (float_sum ops
                                 (replicate
                                    (total_occurrences key (mset (slice_from (- dw) history)) k)
                                    (fl_one ops)))
                    else None))
           \<and> find_common_patterns ops history k top_n dw False d = Inr out
           \<and> map (\<lambda>p. (numbers p, score p)) out = slice_to top_n (sorted_descending scores)
           \<and> (\<forall>p\<in>set out. map_of scores (numbers p) = Some (score p))
           \<and> (int (length scores) \<le> top_n
                \<longrightarrow> (\<lambda>p. (numbers p, score p)) ` set out = set scores)))
   \<and> (mset (slice_from (- dw) history) = mset (slice_from (- dw') history')
      \<longrightarrow> scores_of (accumulate_scores ops (slice_from (- dw) history) k False d)
            = scores_of (accumulate_scores ops (slice_from (- dw') history') k False d')
          \<and> (\<forall>e. find_common_patterns ops history k top_n dw False d = Inl e
                \<longleftrightarrow> find_common_patterns ops history' k top_n dw' False d' = Inl e)
          \<and> (\<forall>out out'. find_common_patterns ops history k top_n dw False d = Inr out
                \<and> find_common_patterns ops history' k top_n dw' False d' = Inr out'
                \<longrightarrow> map score out = map score out'
                    \<and> (int (length out) < top_n \<longrightarrow> set out = set out')))
   \<and> (fl_pow ops x 0 = Inr (fl_one ops) \<and> fl_pow ops x 1 = Inr x
        \<and> fl_add ops (fl_zero ops) x = x
        \<and> fl_add ops (fl_zero ops) (fl_one ops) = fl_one ops \<and> x \<noteq> fl_one ops
      \<longrightarrow> mset two_round_window = mset (rev two_round_window)
          \<and> (\<exists>out out'.
                find_common_patterns ops two_round_window 2 2 2 True x = Inr out
              \<and> find_common_patterns ops (rev two_round_window) 2 2 2 True x = Inr out'
              \<and> \<lparr>numbers = [1, 2], score = x\<rparr> \<in> set out
              \<and> \<lparr>numbers = [1, 2], score = fl_one ops\<rparr> \<in> set out'
              \<and> \<lparr>numbers = [1, 2], score = x\<rparr> \<notin> set out'))"
proof (intro conjI impI)
  assume k: "0 \<le> k"
  from unweighted_scores [OF k, of ops "slice_from (- dw) history" d] obtain scores where
    s: "accumulate_scores ops (slice_from (- dw) history) k False d = Inr scores"
    and ds: "distinct (map fst scores)"
    and ms: "\<forall>key. map_of scores key
         = (if 0 < total_occurrences key (mset (slice_from (- dw) history)) k
            then Some (float_sum ops
                         (replicate (total_occurrences key (mset (slice_from (- dw) history)) k)
                            (fl_one ops)))
            else None)"
    by blast
  from find_common_patterns_result [OF s ds, of top_n] s ms
  show "\<exists>scores out.
             accumulate_scores ops (slice_from (- dw) history) k False d = Inr scores
           \<and> (\<forall>key. map_of scores key
                 = (if 0 < total_occurrences key (mset (slice_from (- dw) history)) k
                    then Some (float_sum ops
                                 (replicate
                                    (total_occurrences key (mset (slice_from (- dw) history)) k)
                                    (fl_one ops)))
                    else None))
           \<and> find_common_patterns ops history k top_n dw False d = Inr out
           \<and> map (\<lambda>p. (numbers p, score p)) out = slice_to top_n (sorted_descending scores)
           \<and> (\<forall>p\<in>set out. map_of scores (numbers p) = Some (score p))
           \<and> (int (length scores) \<le> top_n
                \<longrightarrow> (\<lambda>p. (numbers p, score p)) ` set out = set scores)"
    by blast
next
  assume m: "mset (slice_from (- dw) history) = mset (slice_from (- dw') history')"
  note P = unweighted_permutation [OF m, of ops k d d' top_n]
  from P show "scores_of (accumulate_scores ops (slice_from (- dw) history) k False d)
            = scores_of (accumulate_scores ops (slice_from (- dw') history') k False d')"
    by blast
  from P show "\<forall>e. find_common_patterns ops history k top_n dw False d = Inl e
                \<longleftrightarrow> find_common_patterns ops history' k top_n dw' False d' = Inl e"
    by blast
  from P show "\<forall>out out'. find_common_patterns ops history k top_n dw False d = Inr out
                \<and> find_common_patterns ops history' k top_n dw' False d' = Inr out'
                \<longrightarrow> map score out = map score out'
                    \<and> (int (length out) < top_n \<longrightarrow> set out = set out')"
    by blast
next
  assume a: "fl_pow ops x 0 = Inr (fl_one ops) \<and> fl_pow ops x 1 = Inr x
        \<and> fl_add ops (fl_zero ops) x = x
        \<and> fl_add ops (fl_zero ops) (fl_one ops) = fl_one ops \<and> x \<noteq> fl_one ops"
  show "mset two_round_window = mset (rev two_round_window)" by simp
  from a have r: "accumulate_scores ops (slice_from (- 2) two_round_window) 2 True x
           = Inr [([1, 2], x), ([3, 4], fl_one ops)]"
    "accumulate_scores ops (slice_from (- 2) (rev two_round_window)) 2 True x
           = Inr [([3, 4], x), ([1, 2], fl_one ops)]"
    by (simp_all add: two_round_recency)
  from find_common_patterns_result [OF r(1), of 2] obtain out where
    o: "find_common_patterns ops two_round_window 2 2 2 True x = Inr out"
    and i: "(\<lambda>p. (numbers p, score p)) ` set out = set [([1, 2], x), ([3, 4], fl_one ops)]"
    by auto
  from find_common_patterns_result [OF r(2), of 2] obtain out' where
    o': "find_common_patterns ops (rev two_round_window) 2 2 2 True x = Inr out'"
    and i': "(\<lambda>p. (numbers p, score p)) ` set out' = set [([3, 4], x), ([1, 2], fl_one ops)]"
    by auto
  have mem: "\<lparr>numbers = n, score = v\<rparr> \<in> set ps
      \<longleftrightarrow> (n, v) \<in> (\<lambda>p. (numbers p, score p)) ` set ps" for n v and ps :: "'f pattern_obj list"
    using inj_image_mem_iff [OF pattern_obj_pair_inj, of "\<lparr>numbers = n, score = v\<rparr>" "set ps"]
    by simp
  from a have ne: "x \<noteq> fl_one ops" by simp
  have "\<lparr>numbers = [1, 2], score = x\<rparr> \<in> set out"
    "\<lparr>numbers = [1, 2], score = fl_one ops\<rparr> \<in> set out'"
    "\<lparr>numbers = [1, 2], score = x\<rparr> \<notin> set out'"
    unfolding mem i i' using ne by simp_all
  with o o' show "\<exists>out out'.
                find_common_patterns ops two_round_window 2 2 2 True x = Inr out
              \<and> find_common_patterns ops (rev two_round_window) 2 2 2 True x = Inr out'
              \<and> \<lparr>numbers = [1, 2], score = x\<rparr> \<in> set out
              \<and> \<lparr>numbers = [1, 2], score = fl_one ops\<rparr> \<in> set out'
              \<and> \<lparr>numbers = [1, 2], score = x\<rparr> \<notin> set out'"
    by blast
qed

lemma two_round_unweighted:
  "find_common_patterns exact_ops two_round_window 2 3 2 False (1 / 2)
     = Inr [\<lparr>numbers = [1, 2], score = 1\<rparr>, \<lparr>numbers = [3, 4], score = 1\<rparr>]"
  "find_common_patterns exact_ops (rev two_round_window) 2 3 2 False (1 / 2)
     = Inr [\<lparr>numbers = [3, 4], score = 1\<rparr>, \<lparr>numbers = [1, 2], score = 1\<rparr>]"
  by code_simp+

lemma two_round_weighted:
  "find_common_patterns exact_ops two_round_window 2 2 2 True (1 / 2)
     = Inr [\<lparr>numbers = [3, 4], score = 1\<rparr>, \<lparr>numbers = [1, 2], score = 1 / 2\<rparr>]"
  "find_common_patterns exact_ops (rev two_round_window) 2 2 2 True (1 / 2)
     = Inr [\<lparr>numbers = [1, 2], score = 1\<rparr>, \<lparr>numbers = [3, 4], score = 1 / 2\<rparr>]"
  by code_simp+

lemma two_round_occurrences:
  "total_occurrences [1, 2] (mset (slice_from (- 2) two_round_window)) 2 = 1"
  by (simp add: total_occurrences_def occurrences_def two_round_window_def slice_from_def
      slice_bound_def get_drawn_numbers_def drawn_round_def numeral_2_eq_2)

theorem discovery_order_invariance_witness:
  "(\<exists>scores.
       accumulate_scores exact_ops (slice_from (- 2) two_round_window) 2 False (1 / 2)
         = Inr scores
     \<and> map_of scores [1, 2] = Some 1
     \<and> slice_to 3 (sorted_descending scores) = [([1, 2], 1), ([3, 4], 1)])
   \<and> find_common_patterns exact_ops two_round_window 2 3 2 False (1 / 2)
       = Inr [\<lparr>numbers = [1, 2], score = 1\<rparr>, \<lparr>numbers = [3, 4], score = 1\<rparr>]
   \<and> find_common_patterns exact_ops (rev two_round_window) 2 3 2 False (1 / 2)
       = Inr [\<lparr>numbers = [3, 4], score = 1\<rparr>, \<lparr>numbers = [1, 2], score = 1\<rparr>]
   \<and> scores_of (accumulate_scores exact_ops (slice_from (- 2) two_round_window) 2 False (1 / 2))
       = scores_of (accumulate_scores exact_ops (slice_from (- 2) (rev two_round_window)) 2
                      False (1 / 2))
   \<and> set [\<lparr>numbers = [1, 2], score = 1 :: rat\<rparr>, \<lparr>numbers = [3, 4], score = 1\<rparr>]
       = set [\<lparr>numbers = [3, 4], score = 1\<rparr>, \<lparr>numbers = [1, 2], score = 1\<rparr>]
   \<and> find_common_patterns exact_ops two_round_window 2 2 2 True (1 / 2)
       = Inr [\<lparr>numbers = [3, 4], score = 1\<rparr>, \<lparr>numbers = [1, 2], score = 1 / 2\<rparr>]
   \<and> find_common_patterns exact_ops (rev two_round_window) 2 2 2 True (1 / 2)
       = Inr [\<lparr>numbers = [1, 2], score = 1\<rparr>, \<lparr>numbers = [3, 4], score = 1 / 2\<rparr>]
   \<and> \<lparr>numbers = [1, 2], score = 1 / 2\<rparr>
       \<notin> set [\<lparr>numbers = [1, 2], score = 1 :: rat\<rparr>, \<lparr>numbers = [3, 4], score = 1 / 2\<rparr>]"
proof -
  note T = discovery_order_invariance
    [where ops = exact_ops and k = 2 and dw = 2 and dw' = 2 and top_n = 3 and d = "1 / 2"
       and d' = "1 / 2" and history = two_round_window and history' = "rev two_round_window"
       and x = "1 / 2"]
  have k: "(0::int) \<le> 2" by simp
  have m: "mset (slice_from (- 2) two_round_window)
      = mset (slice_from (- 2) (rev two_round_window))"
    by (simp add: two_round_window_def slice_from_def slice_bound_def)
  have a: "fl_pow exact_ops (1 / 2) 0 = Inr (fl_one exact_ops)
      \<and> fl_pow exact_ops (1 / 2) 1 = Inr (1 / 2)
      \<and> fl_add exact_ops (fl_zero exact_ops) (1 / 2) = 1 / 2
      \<and> fl_add exact_ops (fl_zero exact_ops) (fl_one exact_ops) = fl_one exact_ops
      \<and> 1 / 2 \<noteq> fl_one exact_ops"
    by (simp add: exact_ops_def)
  from T k obtain scores out where
    s: "accumulate_scores exact_ops (slice_from (- 2) two_round_window) 2 False (1 / 2)
          = Inr scores"
    and ms: "\<forall>key. map_of scores key
          = (if 0 < total_occurrences key (mset (slice_from (- 2) two_round_window)) 2
             then Some (float_sum exact_ops
                          (replicate
                             (total_occurrences key (mset (slice_from (- 2) two_round_window)) 2)
                             (fl_one exact_ops)))
             else None)"
    and o: "find_common_patterns exact_ops two_round_window 2 3 2 False (1 / 2) = Inr out"
    and e: "map (\<lambda>p. (numbers p, score p)) out = slice_to 3 (sorted_descending scores)"
    by blast
  from ms [rule_format, of "[1, 2]"] have 1: "map_of scores [1, 2] = Some 1"
    by (simp add: two_round_occurrences float_sum_def exact_ops_def)
  from o have out: "out = [\<lparr>numbers = [1, 2], score = 1\<rparr>, \<lparr>numbers = [3, 4], score = 1\<rparr>]"
    by (simp add: two_round_unweighted)
  from e have 2: "slice_to 3 (sorted_descending scores) = [([1, 2], 1), ([3, 4], 1)]"
    unfolding out by simp
  from T m have 3:
    "scores_of (accumulate_scores exact_ops (slice_from (- 2) two_round_window) 2 False (1 / 2))
       = scores_of (accumulate_scores exact_ops (slice_from (- 2) (rev two_round_window)) 2
                      False (1 / 2))"
    and p: "\<forall>out out'.
        find_common_patterns exact_ops two_round_window 2 3 2 False (1 / 2) = Inr out
      \<and> find_common_patterns exact_ops (rev two_round_window) 2 3 2 False (1 / 2) = Inr out'
      \<longrightarrow> map score out = map score out' \<and> (int (length out) < 3 \<longrightarrow> set out = set out')"
    by blast+
  from p [rule_format, OF conjI [OF two_round_unweighted]]
  have 4: "set [\<lparr>numbers = [1, 2], score = 1 :: rat\<rparr>, \<lparr>numbers = [3, 4], score = 1\<rparr>]
       = set [\<lparr>numbers = [3, 4], score = 1\<rparr>, \<lparr>numbers = [1, 2], score = 1\<rparr>]"
    by simp
  from T a obtain wout wout' where
    w: "find_common_patterns exact_ops two_round_window 2 2 2 True (1 / 2) = Inr wout"
    "find_common_patterns exact_ops (rev two_round_window) 2 2 2 True (1 / 2) = Inr wout'"
    "\<lparr>numbers = [1, 2], score = 1 / 2\<rparr> \<notin> set wout'"
    by blast
  then have 5: "\<lparr>numbers = [1, 2], score = 1 / 2\<rparr>
       \<notin> set [\<lparr>numbers = [1, 2], score = 1 :: rat\<rparr>, \<lparr>numbers = [3, 4], score = 1 / 2\<rparr>]"
    by (simp add: two_round_weighted)
  from s 1 2 have "\<exists>scores.
       accumulate_scores exact_ops (slice_from (- 2) two_round_window) 2 False (1 / 2)
         = Inr scores
     \<and> map_of scores [1, 2] = Some 1
     \<and> slice_to 3 (sorted_descending scores) = [([1, 2], 1), ([3, 4], 1)]"
    by blast
  with 3 4 5 two_round_unweighted two_round_weighted show ?thesis by blast
qed

end
